theory Spec2Isabelle
  imports Main
begin

section \<open>Python strings\<close>

text \<open>
  A Python \<^verbatim>\<open>str\<close> is a sequence of Unicode code points, and \<^verbatim>\<open>len\<close>, slicing and
  \<^verbatim>\<open>find\<close> count code points. A string is therefore a list of code points here, not a
  list of bytes. \<open>py\<close> reads an ASCII literal as such a string.
\<close>

type_synonym pystr = "nat list"

definition py :: "string \<Rightarrow> pystr" where
  "py s = map of_char s"

text \<open>
  The interpreter's Unicode database is not part of the repository. What the built-in
  string operations do on ASCII is defined below; what they do beyond ASCII is a
  parameter of the model.
\<close>

record unicode_db =
  lower_u :: "pystr \<Rightarrow> pystr"
  isspace_u :: "nat \<Rightarrow> bool"
  isdecimal_u :: "nat \<Rightarrow> bool"
  ignorecase_u :: "nat \<Rightarrow> nat \<Rightarrow> bool"

definition is_ascii :: "pystr \<Rightarrow> bool" where
  "is_ascii s = list_all (\<lambda>c. c < 128) s"

definition ascii_lower :: "nat \<Rightarrow> nat" where
  "ascii_lower c = (if 65 \<le> c \<and> c \<le> 90 then c + 32 else c)"

text \<open>\<^verbatim>\<open>s.lower()\<close>\<close>

definition lower :: "unicode_db \<Rightarrow> pystr \<Rightarrow> pystr" where
  "lower U s = (if is_ascii s then map ascii_lower s else lower_u U s)"

text \<open>\<^verbatim>\<open>s.split(sep)\<close> for a separator of one code point: never an empty list.\<close>

fun py_split :: "'a \<Rightarrow> 'a list \<Rightarrow> 'a list list" where
  "py_split sep [] = [[]]"
| "py_split sep (c # cs) =
     (if c = sep then [] # py_split sep cs
      else (case py_split sep cs of
              [] \<Rightarrow> [[c]]
            | w # ws \<Rightarrow> (c # w) # ws))"

text \<open>\<^verbatim>\<open>sep.join(xs)\<close>\<close>

fun py_join :: "'a list \<Rightarrow> 'a list list \<Rightarrow> 'a list" where
  "py_join sep [] = []"
| "py_join sep [x] = x"
| "py_join sep (x # y # ys) = x @ sep @ py_join sep (y # ys)"

text \<open>\<^verbatim>\<open>str(n)\<close> for a natural number and for an integer.\<close>

fun str_nat :: "nat \<Rightarrow> pystr" where
  "str_nat n = (if n < 10 then [48 + n] else str_nat (n div 10) @ [48 + n mod 10])"

declare str_nat.simps [simp del]

definition str_int :: "int \<Rightarrow> pystr" where
  "str_int i = (if i < 0 then 45 # str_nat (nat (- i)) else str_nat (nat i))"

text \<open>\<^verbatim>\<open>s.startswith(p)\<close>\<close>

definition startswith :: "'a list \<Rightarrow> 'a list \<Rightarrow> bool" where
  "startswith p s = (take (length p) s = p)"

text \<open>\<^verbatim>\<open>sub in s\<close>\<close>

fun py_in :: "'a list \<Rightarrow> 'a list \<Rightarrow> bool" where
  "py_in sub [] = (sub = [])"
| "py_in sub (c # cs) = (startswith sub (c # cs) \<or> py_in sub cs)"

text \<open>\<^verbatim>\<open>s.find(sub)\<close>: the lowest index where \<open>sub\<close> occurs, or -1.\<close>

fun find_from :: "'a list \<Rightarrow> 'a list \<Rightarrow> nat \<Rightarrow> int" where
  "find_from sub [] i = (if sub = [] then int i else - 1)"
| "find_from sub (c # cs) i =
     (if startswith sub (c # cs) then int i else find_from sub cs (Suc i))"

definition py_find :: "'a list \<Rightarrow> 'a list \<Rightarrow> int" where
  "py_find s sub = find_from sub s 0"

text \<open>
  \<^verbatim>\<open>s[a:b]\<close>: a negative index counts from the end, and both indices are clamped to the
  string.
\<close>

definition slice_index :: "nat \<Rightarrow> int \<Rightarrow> nat" where
  "slice_index n i = (if i < 0 then nat (max 0 (int n + i)) else min (nat i) n)"

definition py_slice :: "'a list \<Rightarrow> int \<Rightarrow> int \<Rightarrow> 'a list" where
  "py_slice s a b =
     (let lo = slice_index (length s) a; hi = slice_index (length s) b
      in take (hi - lo) (drop lo s))"

text \<open>\<^verbatim>\<open>s.replace(old, new)\<close>: left to right, occurrences that do not overlap.\<close>

function replace_nonempty :: "'a list \<Rightarrow> 'a list \<Rightarrow> 'a list \<Rightarrow> 'a list" where
  "replace_nonempty old new [] = []"
| "replace_nonempty old new (c # cs) =
     (if old \<noteq> [] \<and> startswith old (c # cs)
      then new @ replace_nonempty old new (drop (length old) (c # cs))
      else c # replace_nonempty old new cs)"
  by pat_completeness auto
termination
  by (relation "measure (\<lambda>(old, new, s). length s)") (auto simp: neq_Nil_conv)

definition py_replace :: "'a list \<Rightarrow> 'a list \<Rightarrow> 'a list \<Rightarrow> 'a list" where
  "py_replace old new s =
     (if old = [] then new @ concat (map (\<lambda>c. c # new) s) else replace_nonempty old new s)"

text \<open>
  \<^verbatim>\<open>str.isspace\<close> and the decimal digits of \<^verbatim>\<open>\d\<close>: on ASCII the white space is
  tab, line feed, vertical tab, form feed, carriage return, the four separators 28 to 31
  and the space.
\<close>

definition isspace :: "unicode_db \<Rightarrow> nat \<Rightarrow> bool" where
  "isspace U c =
     (if c < 128 then (9 \<le> c \<and> c \<le> 13) \<or> (28 \<le> c \<and> c \<le> 32) else isspace_u U c)"

definition isdecimal :: "unicode_db \<Rightarrow> nat \<Rightarrow> bool" where
  "isdecimal U c = (if c < 128 then 48 \<le> c \<and> c \<le> 57 else isdecimal_u U c)"

text \<open>\<^verbatim>\<open>s.strip()\<close>\<close>

definition py_strip :: "unicode_db \<Rightarrow> pystr \<Rightarrow> pystr" where
  "py_strip U s = rev (dropWhile (isspace U) (rev (dropWhile (isspace U) s)))"

section \<open>Exceptions\<close>

text \<open>
  The exceptions the pipeline sees: the \<^verbatim>\<open>ValueError\<close> the repository raises itself, the
  \<^verbatim>\<open>TypeError\<close> the interpreter raises, and whatever the imaging, PDF, OCR, storage and
  date libraries raise. Each carries the text that \<^verbatim>\<open>str(e)\<close> returns.
\<close>

datatype py_exception = ValueError pystr | TypeError pystr | LibraryError pystr

fun str_exception :: "py_exception \<Rightarrow> pystr" where
  "str_exception (ValueError m) = m"
| "str_exception (TypeError m) = m"
| "str_exception (LibraryError m) = m"

section \<open>OCR service (\<^verbatim>\<open>services/ocr_service.py\<close>)\<close>

text \<open>
  The libraries the service calls are the environment: \<^verbatim>\<open>convert_from_path\<close> (pdf2image),
  \<^verbatim>\<open>Image.open\<close> (PIL), \<^verbatim>\<open>pytesseract.image_to_string\<close>, and the PIL operations of
  \<^verbatim>\<open>_preprocess_image\<close> (grayscale, contrast, resize), each returning its result or the
  exception it raises. Opening a file is recorded as an I/O event.
\<close>

record 'img ocr_env =
  convert_from_path :: "pystr \<Rightarrow> py_exception + 'img list"
  image_open :: "pystr \<Rightarrow> py_exception + 'img"
  preprocess_image :: "'img \<Rightarrow> py_exception + 'img"
  image_to_string :: "'img \<Rightarrow> py_exception + pystr"

datatype io_event = FileRead pystr

text \<open>The page loop of \<^verbatim>\<open>process_pdf\<close>: \<^verbatim>\<open>for page_num, image in enumerate(images, 1)\<close>.\<close>

fun process_pdf_pages ::
  "'img ocr_env \<Rightarrow> nat \<Rightarrow> 'img list \<Rightarrow> pystr list \<Rightarrow> py_exception + pystr list" where
  "process_pdf_pages env page_num [] texts = Inr texts"
| "process_pdf_pages env page_num (img # images) texts =
     (case preprocess_image env img of
        Inl e \<Rightarrow> Inl e
      | Inr processed_image \<Rightarrow>
          (case image_to_string env processed_image of
             Inl e \<Rightarrow> Inl e
           | Inr text \<Rightarrow>
               process_pdf_pages env (Suc page_num) images
                 (texts @ [py ''=== Page '' @ str_nat page_num @ py '' ===\<newline>'' @ text])))"

definition process_pdf ::
  "'img ocr_env \<Rightarrow> pystr \<Rightarrow> (py_exception + pystr) \<times> io_event list" where
  "process_pdf env pdf_path =
     ((case convert_from_path env pdf_path of
         Inl e \<Rightarrow> Inl e
       | Inr images \<Rightarrow>
           (case process_pdf_pages env 1 images [] of
              Inl e \<Rightarrow> Inl e
            | Inr texts \<Rightarrow> Inr (py_join (py ''\<newline>\<newline>'') texts))),
      [FileRead pdf_path])"

definition process_image ::
  "'img ocr_env \<Rightarrow> pystr \<Rightarrow> (py_exception + pystr) \<times> io_event list" where
  "process_image env image_path =
     ((case image_open env image_path of
         Inl e \<Rightarrow> Inl e
       | Inr img \<Rightarrow>
           (case preprocess_image env img of
              Inl e \<Rightarrow> Inl e
            | Inr processed_image \<Rightarrow> image_to_string env processed_image)),
      [FileRead image_path])"

definition supported_image_types :: "pystr list" where
  "supported_image_types = [py ''jpg'', py ''jpeg'', py ''png'', py ''tiff'', py ''bmp'']"

definition extract_text_from_file ::
  "unicode_db \<Rightarrow> 'img ocr_env \<Rightarrow> pystr \<Rightarrow> pystr \<Rightarrow> (py_exception + pystr) \<times> io_event list" where
  "extract_text_from_file U env file_path file_type0 =
     (let file_type = lower U file_type0 in
      if file_type = py ''pdf'' then process_pdf env file_path
      else if file_type \<in> set supported_image_types then process_image env file_path
      else (Inl (ValueError (py ''Unsupported file type: '' @ file_type)), []))"

section \<open>Documents (\<^verbatim>\<open>models/__init__.py\<close>, \<^verbatim>\<open>api/documents.py\<close>)\<close>

datatype processing_status = Pending | Processing | Completed | Failed

record document =
  doc_id :: nat
  doc_patient_id :: nat
  uploaded_by :: nat
  file_name :: pystr
  file_type :: pystr
  file_path :: pystr
  file_size :: "int option"
  ocr_text :: "pystr option"
  processed :: bool
  processing_status :: processing_status
  error_message :: "pystr option"

record datetime =
  year :: int
  month :: int
  day :: int

record patient =
  pat_id :: nat
  mrn :: pystr
  first_name :: pystr
  last_name :: pystr
  date_of_birth :: "datetime option"
  gender :: "pystr option"

record red_flag =
  category :: pystr
  finding :: pystr
  severity :: pystr

text \<open>The value of a lab result is \<^verbatim>\<open>match.group(1)\<close>: a string, or \<^verbatim>\<open>None\<close>.\<close>

record lab_result =
  lab_value :: "pystr option"
  lab_unit :: pystr

record medication =
  med_name :: pystr
  dosage :: pystr

text \<open>
  \<^verbatim>\<open>Summary\<close>: \<^verbatim>\<open>version = Column(Integer, default=1)\<close> and
  \<^verbatim>\<open>is_latest = Column(Boolean, default=True)\<close>. The JSON column \<^verbatim>\<open>lab_results\<close> holds a
  dict, kept as an association list in insertion order.
\<close>

record summary =
  sum_patient_id :: nat
  created_by :: nat
  sum_summary_text :: pystr
  sum_red_flags :: "red_flag list"
  sum_lab_results :: "(pystr \<times> lab_result) list"
  sum_medications :: "medication list"
  version :: int
  is_latest :: bool

text \<open>The database session: one list of rows per table.\<close>

record database =
  patients :: "patient list"
  documents :: "document list"
  summaries :: "summary list"

text \<open>\<^verbatim>\<open>db.query(Document).filter(Document.id == document_id).first()\<close>\<close>

definition get_document :: "database \<Rightarrow> nat \<Rightarrow> document option" where
  "get_document db document_id = find (\<lambda>d. doc_id d = document_id) (documents db)"

text \<open>Assigning attributes of the row with this primary key.\<close>

definition update_document :: "nat \<Rightarrow> (document \<Rightarrow> document) \<Rightarrow> database \<Rightarrow> database" where
  "update_document document_id f db =
     db\<lparr>documents := map (\<lambda>d. if doc_id d = document_id then f d else d) (documents db)\<rparr>"

text \<open>
  \<^verbatim>\<open>process_document_background\<close> returns nothing; what it does is commit. The model
  returns the database states it commits, in order: none when the document is absent.
  The \<^verbatim>\<open>except Exception\<close> handler queries the document again before it writes.
\<close>

definition process_document_background ::
  "unicode_db \<Rightarrow> 'img ocr_env \<Rightarrow> nat \<Rightarrow> database \<Rightarrow> database list" where
  "process_document_background U env document_id db =
     (case get_document db document_id of
        None \<Rightarrow> []
      | Some document \<Rightarrow>
          (let db1 = update_document document_id (\<lambda>d. d\<lparr>processing_status := Processing\<rparr>) db;
               file_extension = lower U (last (py_split (of_char CHR ''.'') (file_name document)))
           in case fst (extract_text_from_file U env (file_path document) file_extension) of
                Inr extracted_text \<Rightarrow>
                  [db1,
                   update_document document_id
                     (\<lambda>d. d\<lparr>ocr_text := Some extracted_text, processed := True,
                            processing_status := Completed\<rparr>) db1]
              | Inl e \<Rightarrow>
                  (case get_document db1 document_id of
                     None \<Rightarrow> [db1]
                   | Some _ \<Rightarrow>
                       [db1,
                        update_document document_id
                          (\<lambda>d. d\<lparr>processing_status := Failed,
                                 error_message := Some (str_exception e)\<rparr>) db1])))"

text \<open>The database after a call: the last commit, or the database as it was.\<close>

definition after_process ::
  "unicode_db \<Rightarrow> 'img ocr_env \<Rightarrow> nat \<Rightarrow> database \<Rightarrow> database" where
  "after_process U env document_id db =
     last (db # process_document_background U env document_id db)"

text \<open>
  Successive calls for one document, each in the environment of its time (the files on
  disk may change between calls): all the commits, in order.
\<close>

fun process_runs ::
  "unicode_db \<Rightarrow> 'img ocr_env list \<Rightarrow> nat \<Rightarrow> database \<Rightarrow> database list" where
  "process_runs U [] document_id db = []"
| "process_runs U (env # envs) document_id db =
     process_document_background U env document_id db
       @ process_runs U envs document_id (after_process U env document_id db)"

text \<open>The status of a document as a reader of the database sees it.\<close>

definition status_in :: "nat \<Rightarrow> database \<Rightarrow> processing_status option" where
  "status_in document_id db = map_option processing_status (get_document db document_id)"

section \<open>File storage (\<^verbatim>\<open>services/file_storage.py\<close>)\<close>

text \<open>
  An uploaded file is its name and its content; of the content only the number of bytes
  matters here.
\<close>

record upload_file =
  filename :: pystr
  file_bytes :: int

text \<open>
  \<^verbatim>\<open>await v\<close> needs an awaitable \<open>v\<close>; on any other value the interpreter raises
  \<^verbatim>\<open>TypeError\<close> (the text is CPython's, for a \<^verbatim>\<open>bytes\<close> value).
\<close>

datatype 'a py_value = Plain 'a | Awaitable 'a

definition py_await :: "'a py_value \<Rightarrow> py_exception + 'a" where
  "py_await v =
     (case v of
        Awaitable x \<Rightarrow> Inr x
      | Plain x \<Rightarrow>
          Inl (TypeError (py ''object bytes can'' @ [39] @ py ''t be used in '' @ [39]
                            @ py ''await'' @ [39] @ py '' expression'')))"

text \<open>
  \<^verbatim>\<open>file_content.read()\<close>. The stream \<^verbatim>\<open>save_file\<close> receives is a \<^verbatim>\<open>BinaryIO\<close>:
  \<^verbatim>\<open>upload_document\<close> passes \<^verbatim>\<open>file.file\<close>, the synchronous file on which it calls
  \<^verbatim>\<open>seek\<close> and \<^verbatim>\<open>tell\<close> itself. Its \<^verbatim>\<open>read\<close> returns the bytes, not an awaitable.
\<close>

definition binary_read :: "upload_file \<Rightarrow> int py_value" where
  "binary_read file_content = Plain (file_bytes file_content)"

text \<open>
  The file system is the environment of \<^verbatim>\<open>save_file\<close>: \<^verbatim>\<open>patient_dir.mkdir\<close>, the path
  built from the upload directory, the patient, a fresh \<^verbatim>\<open>uuid4\<close> and the suffix of the
  file name, \<^verbatim>\<open>aiofiles.open\<close> for writing, and the write. The \<^verbatim>\<open>except\<close> clause of
  \<^verbatim>\<open>save_file\<close> logs and raises the exception again.
\<close>

record storage_env =
  mkdir :: "nat \<Rightarrow> py_exception + unit"
  unique_file_path :: "nat \<Rightarrow> pystr \<Rightarrow> pystr"
  aiofiles_open :: "pystr \<Rightarrow> py_exception + unit"
  aiofiles_write :: "pystr \<Rightarrow> int \<Rightarrow> py_exception + unit"

definition save_file :: "storage_env \<Rightarrow> upload_file \<Rightarrow> nat \<Rightarrow> py_exception + pystr \<times> int" where
  "save_file storage file_content patient_id =
     (case mkdir storage patient_id of
        Inl e \<Rightarrow> Inl e
      | Inr _ \<Rightarrow>
          (let saved_path = unique_file_path storage patient_id (filename file_content) in
           case aiofiles_open storage saved_path of
             Inl e \<Rightarrow> Inl e
           | Inr _ \<Rightarrow>
               (case py_await (binary_read file_content) of
                  Inl e \<Rightarrow> Inl e
                | Inr content \<Rightarrow>
                    (case aiofiles_write storage saved_path content of
                       Inl e \<Rightarrow> Inl e
                     | Inr _ \<Rightarrow> Inr (saved_path, content)))))"

section \<open>Upload (\<^verbatim>\<open>api/documents.py\<close>)\<close>

text \<open>
  \<^verbatim>\<open>upload_document\<close>. The configured \<^verbatim>\<open>MAX_UPLOAD_SIZE\<close> is a parameter, and so is the
  primary key that \<^verbatim>\<open>uuid.uuid4\<close> draws for the new row (a key already in the table
  makes the commit fail). The background task the endpoint schedules is
  \<open>process_document_background\<close> on the new row's key.
\<close>

datatype upload_error = HTTPException nat pystr | Raised py_exception | PrimaryKeyConflict

definition allowed_extensions :: "pystr list" where
  "allowed_extensions =
     [py ''pdf'', py ''jpg'', py ''jpeg'', py ''png'', py ''tiff'', py ''doc'', py ''docx'']"

definition upload_document ::
  "unicode_db \<Rightarrow> int \<Rightarrow> storage_env \<Rightarrow> nat \<Rightarrow> nat \<Rightarrow> nat \<Rightarrow> upload_file \<Rightarrow> database \<Rightarrow>
   upload_error + document \<times> database" where
  "upload_document U max_upload_size storage new_id patient_id current_user file db =
     (case find (\<lambda>p. pat_id p = patient_id) (patients db) of
        None \<Rightarrow> Inl (HTTPException 404 (py ''Patient not found''))
      | Some patient \<Rightarrow>
          (let file_extension = lower U (last (py_split (of_char CHR ''.'') (filename file))) in
           if file_extension \<notin> set allowed_extensions then
             Inl (HTTPException 400
                    (py ''File type .'' @ file_extension @ py '' not allowed. Allowed types: ''
                       @ py_join (py '', '') allowed_extensions))
           else if file_bytes file > max_upload_size then
             Inl (HTTPException 400
                    (py ''File size exceeds maximum allowed size of '' @ str_int max_upload_size
                       @ py '' bytes''))
           else
             (case save_file storage file patient_id of
                Inl e \<Rightarrow> Inl (Raised e)
              | Inr (saved_path, saved_size) \<Rightarrow>
                  (let new_document =
                         \<lparr>doc_id = new_id, doc_patient_id = patient_id,
                          uploaded_by = current_user, file_name = filename file,
                          file_type = file_extension, file_path = saved_path,
                          file_size = Some saved_size, ocr_text = None, processed = False,
                          processing_status = Pending, error_message = None\<rparr>
                   in if get_document db new_id \<noteq> None then Inl PrimaryKeyConflict
                      else Inr (new_document,
                                db\<lparr>documents := documents db @ [new_document]\<rparr>)))))"

section \<open>Regular expressions (the \<^verbatim>\<open>re\<close> module)\<close>

text \<open>
  The patterns of the repository use literals, character classes, \<^verbatim>\<open>\d\<close>, \<^verbatim>\<open>\s\<close>,
  alternation, the greedy quantifiers \<^verbatim>\<open>*\<close>, \<^verbatim>\<open>+\<close>, \<^verbatim>\<open>?\<close>, non-capturing groups and one
  capturing group. \<^verbatim>\<open>re\<close> matches by backtracking: it tries the alternatives of a pattern
  in a fixed order and keeps the first that lets the rest of the pattern match. The
  matcher below returns all the ways a pattern matches at the start of the input, in that
  order, each as the input that remains and the text of group 1.
\<close>

datatype cls_item = CChar nat | CSpace | CDigit

datatype regex =
    Eps
  | Lit nat
  | Class "cls_item list"
  | NotClass "cls_item list"
  | Seq regex regex
  | Alt regex regex
  | Star regex
  | Group regex

text \<open>\<^verbatim>\<open>r+\<close> and \<^verbatim>\<open>r?\<close>, and the pattern of a literal text.\<close>

definition Plus :: "regex \<Rightarrow> regex" where
  "Plus r = Seq r (Star r)"

definition Opt :: "regex \<Rightarrow> regex" where
  "Opt r = Alt r Eps"

definition lit :: "string \<Rightarrow> regex" where
  "lit s = foldr (\<lambda>c r. Seq (Lit (of_char c)) r) s Eps"

text \<open>
  Every pattern of the repository is compiled with \<^verbatim>\<open>re.IGNORECASE\<close>: a code point
  matches a literal when their lower cases agree (on ASCII), or when the Unicode database
  says so.
\<close>

definition ci_match :: "unicode_db \<Rightarrow> nat \<Rightarrow> nat \<Rightarrow> bool" where
  "ci_match U p x =
     (if p < 128 \<and> x < 128 then ascii_lower x = ascii_lower p
      else x = p \<or> ignorecase_u U p x)"

fun item_match :: "unicode_db \<Rightarrow> nat \<Rightarrow> cls_item \<Rightarrow> bool" where
  "item_match U x (CChar p) = ci_match U p x"
| "item_match U x CSpace = isspace U x"
| "item_match U x CDigit = isdecimal U x"

type_synonym match_state = "pystr \<times> pystr option"

function rmatch :: "unicode_db \<Rightarrow> regex \<Rightarrow> match_state \<Rightarrow> match_state list" where
  "rmatch U Eps st = [st]"
| "rmatch U (Lit p) (s, g) =
     (case s of [] \<Rightarrow> [] | x # xs \<Rightarrow> if ci_match U p x then [(xs, g)] else [])"
| "rmatch U (Class items) (s, g) =
     (case s of [] \<Rightarrow> [] | x # xs \<Rightarrow> if list_ex (item_match U x) items then [(xs, g)] else [])"
| "rmatch U (NotClass items) (s, g) =
     (case s of [] \<Rightarrow> [] | x # xs \<Rightarrow> if list_ex (item_match U x) items then [] else [(xs, g)])"
| "rmatch U (Seq r1 r2) st = concat (map (rmatch U r2) (rmatch U r1 st))"
| "rmatch U (Alt r1 r2) st = rmatch U r1 st @ rmatch U r2 st"
| "rmatch U (Star r) st =
     concat (map (\<lambda>st'. if length (fst st') < length (fst st) then rmatch U (Star r) st' else [])
                 (rmatch U r st))
       @ [st]"
| "rmatch U (Group r) (s, g) =
     map (\<lambda>(s', g'). (s', Some (take (length s - length s') s))) (rmatch U r (s, g))"
  by pat_completeness auto
termination
  by (relation "measures [\<lambda>(U, r, st). size r, \<lambda>(U, r, st). length (fst st)]") auto

text \<open>
  \<^verbatim>\<open>re.search\<close>: the first position of the text where the pattern matches, with the first
  way it matches there; the result is group 1 of the match.
\<close>

fun re_search :: "unicode_db \<Rightarrow> regex \<Rightarrow> pystr \<Rightarrow> pystr option option" where
  "re_search U r [] = (case rmatch U r ([], None) of [] \<Rightarrow> None | (s', g) # _ \<Rightarrow> Some g)"
| "re_search U r (c # cs) =
     (case rmatch U r (c # cs, None) of [] \<Rightarrow> re_search U r cs | (s', g) # _ \<Rightarrow> Some g)"

text \<open>
  \<^verbatim>\<open>re.split\<close> for a pattern that matches no empty text: the pieces between the matches.
\<close>

function re_split_from :: "unicode_db \<Rightarrow> regex \<Rightarrow> pystr \<Rightarrow> pystr \<Rightarrow> pystr list" where
  "re_split_from U r piece [] = [piece]"
| "re_split_from U r piece (c # cs) =
     (case rmatch U r (c # cs, None) of
        [] \<Rightarrow> re_split_from U r (piece @ [c]) cs
      | (s', g) # _ \<Rightarrow>
          if length s' < length (c # cs) then piece # re_split_from U r [] s'
          else re_split_from U r (piece @ [c]) cs)"
  by pat_completeness auto
termination
  by (relation "measure (\<lambda>(U, r, piece, s). length s)") auto

definition re_split :: "unicode_db \<Rightarrow> regex \<Rightarrow> pystr \<Rightarrow> pystr list" where
  "re_split U r s = re_split_from U r [] s"

section \<open>Summarization service (\<^verbatim>\<open>services/summarization_service.py\<close>)\<close>

subsection \<open>\<^verbatim>\<open>_calculate_age\<close>\<close>

text \<open>
  The date of birth reaches \<^verbatim>\<open>_calculate_age\<close> as \<^verbatim>\<open>None\<close>, as a string or as a
  \<^verbatim>\<open>datetime\<close>; \<^verbatim>\<open>datetime.now()\<close> is the parameter \<open>today\<close>.

  \<^verbatim>\<open>datetime.fromisoformat\<close> is a library function. Every version of it reads the
  calendar date \<^verbatim>\<open>YYYY-MM-DD\<close>, and that is defined here; what it does with any other
  string (further formats, or the \<^verbatim>\<open>ValueError\<close> it raises) is the parameter \<open>other\<close>.
\<close>

datatype dob_input = DobNone | DobStr pystr | DobDatetime datetime

definition is_ascii_digit :: "nat \<Rightarrow> bool" where
  "is_ascii_digit c = (48 \<le> c \<and> c \<le> 57)"

definition digits_value :: "pystr \<Rightarrow> int" where
  "digits_value s = foldl (\<lambda>a c. 10 * a + (int c - 48)) 0 s"

definition is_leap :: "int \<Rightarrow> bool" where
  "is_leap y = (y mod 4 = 0 \<and> (y mod 100 \<noteq> 0 \<or> y mod 400 = 0))"

definition days_in_month :: "int \<Rightarrow> int \<Rightarrow> int" where
  "days_in_month y m =
     (if m = 2 then (if is_leap y then 29 else 28)
      else if m = 4 \<or> m = 6 \<or> m = 9 \<or> m = 11 then 30 else 31)"

definition fromisoformat ::
  "(pystr \<Rightarrow> py_exception + datetime) \<Rightarrow> pystr \<Rightarrow> py_exception + datetime" where
  "fromisoformat other s =
     (if length s = 10 \<and> s ! 4 = 45 \<and> s ! 7 = 45
         \<and> list_all is_ascii_digit (take 4 s)
         \<and> list_all is_ascii_digit (take 2 (drop 5 s))
         \<and> list_all is_ascii_digit (drop 8 s)
      then (let y = digits_value (take 4 s);
                m = digits_value (take 2 (drop 5 s));
                d = digits_value (drop 8 s)
            in if 1 \<le> y \<and> 1 \<le> m \<and> m \<le> 12 \<and> 1 \<le> d \<and> d \<le> days_in_month y m
               then Inr \<lparr>year = y, month = m, day = d\<rparr>
               else other s)
      else other s)"

text \<open>\<^verbatim>\<open>(today.month, today.day) < (dob.month, dob.day)\<close>: tuples compare lexicographically.\<close>

definition tuple_less :: "int \<times> int \<Rightarrow> int \<times> int \<Rightarrow> bool" where
  "tuple_less a b = (fst a < fst b \<or> (fst a = fst b \<and> snd a < snd b))"

text \<open>The body of the \<^verbatim>\<open>try\<close>: the age as text, or the exception raised.\<close>

definition calculate_age_try ::
  "(pystr \<Rightarrow> py_exception + datetime) \<Rightarrow> datetime \<Rightarrow> dob_input \<Rightarrow> py_exception + pystr" where
  "calculate_age_try other today dob_value =
     (case (case dob_value of
              DobStr s \<Rightarrow> fromisoformat other (py_replace (py ''Z'') (py ''+00:00'') s)
            | DobDatetime d \<Rightarrow> Inr d
            | DobNone \<Rightarrow> Inl (LibraryError (py ''AttributeError''))) of
        Inl e \<Rightarrow> Inl e
      | Inr dob \<Rightarrow>
          Inr (str_int (year today - year dob
                 - (if tuple_less (month today, day today) (month dob, day dob) then 1 else 0))))"

text \<open>
  \<^verbatim>\<open>if not date_of_birth\<close> holds for \<^verbatim>\<open>None\<close> and for the empty string; the bare
  \<^verbatim>\<open>except:\<close> turns every exception of the body into the text \<^verbatim>\<open>Unknown\<close>.
\<close>

definition calculate_age ::
  "(pystr \<Rightarrow> py_exception + datetime) \<Rightarrow> datetime \<Rightarrow> dob_input \<Rightarrow> py_exception + pystr" where
  "calculate_age other today dob_value =
     (if dob_value = DobNone \<or> dob_value = DobStr [] then Inr (py ''Unknown'')
      else (case calculate_age_try other today dob_value of
              Inl e \<Rightarrow> Inr (py ''Unknown'')
            | Inr age \<Rightarrow> Inr age))"

subsection \<open>\<^verbatim>\<open>_create_summary_prompt\<close>\<close>

text \<open>
  \<open>patient_info\<close> is the dictionary \<^verbatim>\<open>generate_summary_background\<close> builds: all five keys
  are present. The fixed instructions that end the prompt are the parameter
  \<open>instructions\<close>.
\<close>

record patient_info =
  pi_mrn :: pystr
  pi_first_name :: pystr
  pi_last_name :: pystr
  pi_date_of_birth :: dob_input
  pi_gender :: "pystr option"

definition create_summary_prompt ::
  "(pystr \<Rightarrow> py_exception + datetime) \<Rightarrow> datetime \<Rightarrow> pystr \<Rightarrow> patient_info \<Rightarrow> pystr \<Rightarrow>
   py_exception + pystr" where
  "create_summary_prompt other today instructions info documents_text =
     (case calculate_age other today (pi_date_of_birth info) of
        Inl e \<Rightarrow> Inl e
      | Inr age \<Rightarrow>
          Inr (py ''\<newline>Patient Information:\<newline>- MRN: '' @ pi_mrn info
               @ py ''\<newline>- Name: '' @ pi_first_name info @ py '' '' @ pi_last_name info
               @ py ''\<newline>- Age: '' @ age @ py '' years''
               @ py ''\<newline>- Gender: ''
               @ (case pi_gender info of None \<Rightarrow> py ''None'' | Some g \<Rightarrow> g)
               @ py ''\<newline>''
               @ py ''\<newline>\<newline>Patient Documents:\<newline>'' @ take 4000 documents_text
               @ instructions))"

subsection \<open>\<^verbatim>\<open>_extract_red_flags\<close>\<close>

text \<open>
  The critical marker is the code point U+1F534; the abnormal marker is the two code
  points U+26A0 U+FE0F.
\<close>

definition critical_marker :: pystr where
  "critical_marker = [128308]"

definition abnormal_marker :: pystr where
  "abnormal_marker = [9888, 65039]"

fun red_flags_loop :: "unicode_db \<Rightarrow> pystr \<Rightarrow> pystr list \<Rightarrow> red_flag list \<Rightarrow> red_flag list" where
  "red_flags_loop U summary_text [] red_flags = red_flags"
| "red_flags_loop U summary_text (line # lines) red_flags =
     (if py_in critical_marker line then
        red_flags_loop U summary_text lines
          (red_flags @ [\<lparr>category = py ''critical'',
                         finding = py_strip U (py_replace critical_marker [] line),
                         severity = py ''critical''\<rparr>])
      else if py_in abnormal_marker line
              \<and> py_in (py ''RED FLAG'')
                   (py_slice summary_text (max 0 (py_find summary_text line - 200))
                      (py_find summary_text line)) then
        red_flags_loop U summary_text lines
          (red_flags @ [\<lparr>category = py ''abnormal'',
                         finding = py_strip U (py_replace abnormal_marker [] line),
                         severity = py ''medium''\<rparr>])
      else red_flags_loop U summary_text lines red_flags)"

definition extract_red_flags :: "unicode_db \<Rightarrow> pystr \<Rightarrow> red_flag list" where
  "extract_red_flags U summary_text =
     red_flags_loop U summary_text (py_split 10 summary_text) []"

subsection \<open>\<^verbatim>\<open>_extract_lab_results\<close> and \<^verbatim>\<open>_get_default_unit\<close>\<close>

definition seqs :: "regex list \<Rightarrow> regex" where
  "seqs rs = foldr Seq rs Eps"

text \<open>\<^verbatim>\<open>(\d+\.?\d*)\<close>\<close>

definition number_group :: regex where
  "number_group = Group (seqs [Plus (Class [CDigit]), Opt (Lit 46), Star (Class [CDigit])])"

text \<open>\<^verbatim>\<open>[:=\s]*\<close>\<close>

definition label_gap :: regex where
  "label_gap = Star (Class [CChar 58, CChar 61, CSpace])"

definition lab_patterns :: "(pystr \<times> regex) list" where
  "lab_patterns =
     [(py ''hemoglobin'',
       seqs [Alt (lit ''hemoglobin'') (Alt (lit ''hgb'') (lit ''hb'')), label_gap, number_group,
             Star (Class [CSpace]), Opt (Alt (lit ''g/dl'') (lit ''mg/dl''))]),
      (py ''glucose'',
       seqs [Alt (lit ''glucose'') (lit ''blood sugar''), label_gap, number_group,
             Star (Class [CSpace]), Opt (lit ''mg/dl'')]),
      (py ''creatinine'',
       seqs [Alt (lit ''creatinine'') (lit ''cr''), label_gap, number_group,
             Star (Class [CSpace]), Opt (lit ''mg/dl'')]),
      (py ''wbc'',
       seqs [Alt (lit ''wbc'') (lit ''white blood cell''), label_gap, number_group,
             Star (Class [CSpace]), Opt (lit ''k/ul'')])]"

text \<open>The unit of \<^verbatim>\<open>wbc\<close> is \<^verbatim>\<open>K/\<close>, U+03BC, \<^verbatim>\<open>L\<close>.\<close>

definition get_default_unit :: "pystr \<Rightarrow> pystr" where
  "get_default_unit lab_name =
     (case map_of [(py ''hemoglobin'', py ''g/dL''), (py ''glucose'', py ''mg/dL''),
                   (py ''creatinine'', py ''mg/dL''), (py ''wbc'', py ''K/'' @ [956] @ py ''L'')]
             lab_name of
        None \<Rightarrow> []
      | Some u \<Rightarrow> u)"

text \<open>\<^verbatim>\<open>results[key] = v\<close> on a dictionary kept in insertion order.\<close>

fun dict_set :: "('k \<times> 'v) list \<Rightarrow> 'k \<Rightarrow> 'v \<Rightarrow> ('k \<times> 'v) list" where
  "dict_set [] k v = [(k, v)]"
| "dict_set ((k', v') # kvs) k v =
     (if k' = k then (k, v) # kvs else (k', v') # dict_set kvs k v)"

fun lab_results_loop ::
  "unicode_db \<Rightarrow> pystr \<Rightarrow> (pystr \<times> regex) list \<Rightarrow> (pystr \<times> lab_result) list \<Rightarrow>
   (pystr \<times> lab_result) list" where
  "lab_results_loop U text_lower [] results = results"
| "lab_results_loop U text_lower ((lab_name, pattern) # rest) results =
     (case re_search U pattern text_lower of
        None \<Rightarrow> lab_results_loop U text_lower rest results
      | Some g \<Rightarrow>
          lab_results_loop U text_lower rest
            (dict_set results lab_name
               \<lparr>lab_value = g, lab_unit = get_default_unit lab_name\<rparr>))"

definition extract_lab_results :: "unicode_db \<Rightarrow> pystr \<Rightarrow> (pystr \<times> lab_result) list" where
  "extract_lab_results U txt = lab_results_loop U (lower U txt) lab_patterns []"

subsection \<open>\<^verbatim>\<open>_extract_medications\<close>\<close>

text \<open>
  The section pattern; its class of colons holds the ASCII colon and U+FF1A. A match whose
  group 1 is \<^verbatim>\<open>None\<close> would make \<^verbatim>\<open>re.split\<close> raise \<^verbatim>\<open>TypeError\<close>.
\<close>

definition med_section_pattern :: regex where
  "med_section_pattern =
     seqs [Alt (Seq (lit ''medication'') (Opt (Lit 115))) (Seq (lit ''drug'') (Opt (Lit 115))),
           Class [CChar 58, CChar 65306], Star (Class [CSpace]),
           Group (Seq (Plus (NotClass [CChar 10]))
                      (Star (Seq (Lit 10) (Plus (NotClass [CChar 10])))))]"

fun medications_loop :: "unicode_db \<Rightarrow> pystr list \<Rightarrow> medication list \<Rightarrow> medication list" where
  "medications_loop U [] medications = medications"
| "medications_loop U (line0 # med_lines) medications =
     (let line = py_strip U line0 in
      if line \<noteq> [] \<and> length line > 3 then
        medications_loop U med_lines
          (medications @ [\<lparr>med_name = line, dosage = py ''See original document''\<rparr>])
      else medications_loop U med_lines medications)"

definition extract_medications :: "unicode_db \<Rightarrow> pystr \<Rightarrow> py_exception + medication list" where
  "extract_medications U txt =
     (case re_search U med_section_pattern txt of
        None \<Rightarrow> Inr []
      | Some None \<Rightarrow> Inl (TypeError (py ''expected string or bytes-like object''))
      | Some (Some med_text) \<Rightarrow>
          Inr (medications_loop U
                 (take 10 (re_split U (Plus (Class [CChar 44, CChar 59, CChar 10])) med_text))
                 []))"

subsection \<open>\<^verbatim>\<open>generate_summary\<close>\<close>

text \<open>
  The chat completion is the parameter \<open>env_client\<close>: from the prompt to the text of the
  first choice, or the exception raised.
\<close>

record summary_data =
  sd_summary_text :: pystr
  sd_red_flags :: "red_flag list"
  sd_lab_results :: "(pystr \<times> lab_result) list"
  sd_medications :: "medication list"

record summarizer_env =
  fromisoformat_other :: "pystr \<Rightarrow> py_exception + datetime"
  env_today :: datetime
  env_instructions :: pystr
  env_client :: "pystr \<Rightarrow> py_exception + pystr"

definition generate_summary ::
  "unicode_db \<Rightarrow> summarizer_env \<Rightarrow> patient_info \<Rightarrow> pystr list \<Rightarrow> py_exception + summary_data" where
  "generate_summary U env info documents_text =
     (let combined_text =
            py_join (py ''\<newline>\<newline>--- Document Separator ---\<newline>\<newline>'') documents_text
      in case create_summary_prompt (fromisoformat_other env) (env_today env) (env_instructions env)
                info combined_text of
           Inl e \<Rightarrow> Inl e
         | Inr prompt \<Rightarrow>
             (case env_client env prompt of
                Inl e \<Rightarrow> Inl e
              | Inr response_text \<Rightarrow>
                  (case extract_medications U combined_text of
                     Inl e \<Rightarrow> Inl e
                   | Inr meds \<Rightarrow>
                       Inr \<lparr>sd_summary_text = response_text,
                            sd_red_flags = extract_red_flags U response_text,
                            sd_lab_results = extract_lab_results U combined_text,
                            sd_medications = meds\<rparr>)))"

section \<open>Summaries (\<^verbatim>\<open>api/summaries.py\<close>)\<close>

subsection \<open>Compiling the module\<close>

text \<open>
  Python compiles a module before it runs any of it, and a module that does not compile
  defines nothing. The tokenizer keeps a stack of indentation columns, which starts as
  the column 0. A logical line that stands right of the top of the stack opens a block,
  which the grammar allows only after a header (a line that ends with a colon); a line
  after a header must open a block; and a line that stands left of the top must return to
  a column of the stack. A logical line is given here by its number, its column and
  whether it is a header; the result is the number of the first line that breaks these
  rules.
\<close>

fun indentation_error :: "nat list \<Rightarrow> bool \<Rightarrow> (nat \<times> nat \<times> bool) list \<Rightarrow> nat option" where
  "indentation_error stack after_header [] = None"
| "indentation_error stack after_header ((n, col, header) # rest) =
     (let top = (case stack of [] \<Rightarrow> 0 | t # _ \<Rightarrow> t) in
      if top < col then
        (if after_header then indentation_error (col # stack) header rest else Some n)
      else if after_header then Some n
      else
        (case dropWhile (\<lambda>t. col < t) stack of
           [] \<Rightarrow> Some n
         | t # below \<Rightarrow>
             if t = col then indentation_error (t # below) header rest else Some n))"

text \<open>
  The logical lines of \<^verbatim>\<open>summaries.py\<close> up to line 20: the imports and the two
  assignments at column 0, the header of \<^verbatim>\<open>generate_summary_background\<close> on line 18, its
  docstring on line 19 at column 3, and \<^verbatim>\<open>try:\<close> on line 20 at column 4.
\<close>

definition summaries_py_lines :: "(nat \<times> nat \<times> bool) list" where
  "summaries_py_lines =
     [(1, 0, False), (2, 0, False), (3, 0, False), (4, 0, False), (5, 0, False),
      (7, 0, False), (8, 0, False), (9, 0, False), (10, 0, False), (11, 0, False),
      (12, 0, False), (14, 0, False), (15, 0, False),
      (18, 0, True), (19, 3, False), (20, 4, True)]"

datatype syntax_error = IndentationError nat

definition compile_summaries :: "syntax_error option" where
  "compile_summaries = map_option IndentationError (indentation_error [0] False summaries_py_lines)"

subsection \<open>\<^verbatim>\<open>generate_summary_background\<close>\<close>

text \<open>
  The two writes that end the body of \<^verbatim>\<open>generate_summary_background\<close>: the bulk update
  that clears \<^verbatim>\<open>is_latest\<close> on the patient's latest rows, and the new row. The constructor
  call sets neither \<^verbatim>\<open>version\<close> nor anything that computes it, so the row takes the
  column's default, 1.
\<close>

definition mark_not_latest :: "nat \<Rightarrow> summary list \<Rightarrow> summary list" where
  "mark_not_latest patient_id rows =
     map (\<lambda>s. if sum_patient_id s = patient_id \<and> is_latest s then s\<lparr>is_latest := False\<rparr> else s)
       rows"

definition new_summary :: "nat \<Rightarrow> nat \<Rightarrow> summary_data \<Rightarrow> summary" where
  "new_summary patient_id user_id data =
     \<lparr>sum_patient_id = patient_id, created_by = user_id,
      sum_summary_text = sd_summary_text data, sum_red_flags = sd_red_flags data,
      sum_lab_results = sd_lab_results data, sum_medications = sd_medications data,
      version = 1, is_latest = True\<rparr>"

text \<open>
  The statements of the body, lines 20 to 88 of the source: the database states they
  would commit, one, or none when the body returns early or logs an exception.
\<close>

definition generate_summary_background_body ::
  "unicode_db \<Rightarrow> summarizer_env \<Rightarrow> nat \<Rightarrow> nat \<Rightarrow> database \<Rightarrow> database list" where
  "generate_summary_background_body U env patient_id user_id db =
     (case find (\<lambda>p. pat_id p = patient_id) (patients db) of
        None \<Rightarrow> []
      | Some patient \<Rightarrow>
          (let docs = filter (\<lambda>d. doc_patient_id d = patient_id \<and> processed d) (documents db) in
           if docs = [] then []
           else
             (let documents_text =
                    concat (map (\<lambda>doc. case ocr_text doc of
                                          None \<Rightarrow> []
                                        | Some t \<Rightarrow> if t = [] then [] else [t]) docs)
              in if documents_text = [] then []
                 else
                   (case generate_summary U env
                           \<lparr>pi_mrn = mrn patient, pi_first_name = first_name patient,
                            pi_last_name = last_name patient,
                            pi_date_of_birth =
                              (case date_of_birth patient of
                                 None \<Rightarrow> DobNone
                               | Some d \<Rightarrow> DobDatetime d),
                            pi_gender = gender patient\<rparr>
                           documents_text of
                      Inl e \<Rightarrow> []
                    | Inr data \<Rightarrow>
                        [db\<lparr>summaries :=
                              mark_not_latest patient_id (summaries db)
                                @ [new_summary patient_id user_id data]\<rparr>]))))"

text \<open>
  \<^verbatim>\<open>generate_summary_background\<close> as the module provides it: the body runs only if the
  module compiles; otherwise the import raises, the function does not exist and nothing
  is committed.
\<close>

definition generate_summary_background ::
  "unicode_db \<Rightarrow> summarizer_env \<Rightarrow> nat \<Rightarrow> nat \<Rightarrow> database \<Rightarrow> syntax_error + database list" where
  "generate_summary_background U env patient_id user_id db =
     (case compile_summaries of
        Some e \<Rightarrow> Inl e
      | None \<Rightarrow> Inr (generate_summary_background_body U env patient_id user_id db))"

section \<open>Notions used to state the properties\<close>

text \<open>
  The outcome of the extraction step for a document, as \<open>process_document_background\<close>
  calls it: the text, or the exception raised.
\<close>

definition document_extraction ::
  "unicode_db \<Rightarrow> 'img ocr_env \<Rightarrow> document \<Rightarrow> py_exception + pystr" where
  "document_extraction U env d =
     fst (extract_text_from_file U env (file_path d)
            (lower U (last (py_split (of_char CHR ''.'') (file_name d)))))"

text \<open>The row a call leaves behind, computed from the row it found.\<close>

definition document_after :: "unicode_db \<Rightarrow> 'img ocr_env \<Rightarrow> document \<Rightarrow> document" where
  "document_after U env d =
     (case document_extraction U env d of
        Inr extracted_text \<Rightarrow>
          d\<lparr>ocr_text := Some extracted_text, processed := True, processing_status := Completed\<rparr>
      | Inl e \<Rightarrow> d\<lparr>processing_status := Failed, error_message := Some (str_exception e)\<rparr>)"

text \<open>A relation holds between every element of a list and the next.\<close>

fun all_steps :: "('a \<Rightarrow> 'a \<Rightarrow> bool) \<Rightarrow> 'a list \<Rightarrow> bool" where
  "all_steps R [] = True"
| "all_steps R [x] = True"
| "all_steps R (x # y # ys) = (R x y \<and> all_steps R (y # ys))"

text \<open>
  The status transitions of the specification: pending to processing, processing to
  completed or failed.
\<close>

fun spec_step :: "processing_status option \<Rightarrow> processing_status option \<Rightarrow> bool" where
  "spec_step (Some s) (Some s') =
     ((s = Pending \<and> s' = Processing) \<or> (s = Processing \<and> (s' = Completed \<or> s' = Failed)))"
| "spec_step _ _ = False"

text \<open>
  The status transitions of the code: into processing from any status, and from
  processing to completed or failed.
\<close>

fun code_step :: "processing_status option \<Rightarrow> processing_status option \<Rightarrow> bool" where
  "code_step (Some s) (Some s') =
     (s' = Processing \<or> (s = Processing \<and> (s' = Completed \<or> s' = Failed)))"
| "code_step _ _ = False"

text \<open>The rows of a patient in the summaries table.\<close>

definition patient_summaries :: "nat \<Rightarrow> database \<Rightarrow> summary list" where
  "patient_summaries patient_id db =
     filter (\<lambda>s. sum_patient_id s = patient_id) (summaries db)"

subsection \<open>Example data\<close>

definition example_unicode :: unicode_db where
  "example_unicode =
     \<lparr>lower_u = (\<lambda>s. s), isspace_u = (\<lambda>c. False), isdecimal_u = (\<lambda>c. False),
      ignorecase_u = (\<lambda>p x. False)\<rparr>"

text \<open>An environment where no file can be opened, and one where every image reads as text.\<close>

definition failing_env :: "unit ocr_env" where
  "failing_env =
     \<lparr>convert_from_path = (\<lambda>p. Inl (LibraryError (py ''Unable to get page count''))),
      image_open = (\<lambda>p. Inl (LibraryError (py ''cannot identify image file''))),
      preprocess_image = (\<lambda>i. Inr i),
      image_to_string = (\<lambda>i. Inr (py ''Hb 9.2''))\<rparr>"

definition reading_env :: "unit ocr_env" where
  "reading_env =
     \<lparr>convert_from_path = (\<lambda>p. Inr [(), ()]),
      image_open = (\<lambda>p. Inr ()),
      preprocess_image = (\<lambda>i. Inr i),
      image_to_string = (\<lambda>i. Inr (py ''Hb 9.2''))\<rparr>"

definition example_patient :: patient where
  "example_patient =
     \<lparr>pat_id = 7, mrn = py ''MRN7'', first_name = py ''Ada'', last_name = py ''Lee'',
      date_of_birth = Some \<lparr>year = 2000, month = 6, day = 15\<rparr>, gender = None\<rparr>"

definition scan_document :: document where
  "scan_document =
     \<lparr>doc_id = 4, doc_patient_id = 7, uploaded_by = 3, file_name = py ''scan.png'',
      file_type = py ''png'', file_path = py ''uploads/7/a.png'', file_size = Some 2048,
      ocr_text = None, processed = False, processing_status = Pending,
      error_message = None\<rparr>"

definition scan_db :: database where
  "scan_db = \<lparr>patients = [example_patient], documents = [scan_document], summaries = []\<rparr>"

definition word_file :: upload_file where
  "word_file = \<lparr>filename = py ''report.docx'', file_bytes = 2048\<rparr>"

text \<open>A file system where every operation of \<^verbatim>\<open>save_file\<close> succeeds.\<close>

definition working_storage :: storage_env where
  "working_storage =
     \<lparr>mkdir = (\<lambda>p. Inr ()), unique_file_path = (\<lambda>p name. py ''uploads/7/b.docx''),
      aiofiles_open = (\<lambda>p. Inr ()), aiofiles_write = (\<lambda>p n. Inr ())\<rparr>"

text \<open>A stored document with the name of a Word file.\<close>

definition word_document :: document where
  "word_document =
     \<lparr>doc_id = 9, doc_patient_id = 7, uploaded_by = 3, file_name = py ''report.docx'',
      file_type = py ''docx'', file_path = py ''uploads/7/b.docx'', file_size = Some 2048,
      ocr_text = None, processed = False, processing_status = Pending,
      error_message = None\<rparr>"

definition word_db :: database where
  "word_db = \<lparr>patients = [example_patient], documents = [word_document], summaries = []\<rparr>"

definition empty_db :: database where
  "empty_db = \<lparr>patients = [example_patient], documents = [], summaries = []\<rparr>"

text \<open>A \<^verbatim>\<open>fromisoformat\<close> that reads the calendar date format only.\<close>

definition no_other_format :: "pystr \<Rightarrow> py_exception + datetime" where
  "no_other_format s = Inl (ValueError (py ''Invalid isoformat string''))"

text \<open>
  A summarizer whose model answers with a red-flag heading and one critical line, and a
  database with one processed document.
\<close>

definition example_response :: pystr where
  "example_response = py ''RED FLAG'' @ [10] @ critical_marker @ py '' Hb low''"

definition example_summarizer :: summarizer_env where
  "example_summarizer =
     \<lparr>fromisoformat_other = no_other_format,
      env_today = \<lparr>year = 2024, month = 6, day = 14\<rparr>,
      env_instructions = py ''Create a comprehensive clinical summary'',
      env_client = (\<lambda>prompt. Inr example_response)\<rparr>"

definition processed_db :: database where
  "processed_db =
     \<lparr>patients = [example_patient],
      documents = [scan_document\<lparr>ocr_text := Some (py ''Hb 9.2''), processed := True,
                                  processing_status := Completed\<rparr>],
      summaries = []\<rparr>"

subsection \<open>Red flags by line\<close>

text \<open>
  The position in the summary text where line \<open>i\<close> of its lines starts: each earlier line
  and its line feed come before it.
\<close>

definition line_offset :: "pystr list \<Rightarrow> nat \<Rightarrow> nat" where
  "line_offset lines i = sum_list (map (\<lambda>l. length l + 1) (take i lines))"

text \<open>
  The 200 code points of the text before position \<open>off\<close>, or all of them when there are
  fewer.
\<close>

definition preceding_window :: "pystr \<Rightarrow> nat \<Rightarrow> pystr" where
  "preceding_window txt off = drop (off - 200) (take off txt)"

text \<open>
  The red flag of a line with the critical marker, and of a line with the abnormal marker:
  the finding is the line with the marker removed, stripped.
\<close>

definition critical_flag :: "unicode_db \<Rightarrow> pystr \<Rightarrow> red_flag" where
  "critical_flag U line =
     \<lparr>category = py ''critical'', finding = py_strip U (py_replace critical_marker [] line),
      severity = py ''critical''\<rparr>"

definition abnormal_flag :: "unicode_db \<Rightarrow> pystr \<Rightarrow> red_flag" where
  "abnormal_flag U line =
     \<lparr>category = py ''abnormal'', finding = py_strip U (py_replace abnormal_marker [] line),
      severity = py ''medium''\<rparr>"

text \<open>
  The red flags of line \<open>i\<close>, by the amended claim: a critical flag when the line has the
  critical marker; otherwise an abnormal flag when the line has the abnormal marker and
  the literal \<^verbatim>\<open>RED FLAG\<close>, compared case-sensitively, occurs in the 200 code points
  before the line.
\<close>

definition amended_line_flags :: "unicode_db \<Rightarrow> pystr \<Rightarrow> pystr list \<Rightarrow> nat \<Rightarrow> red_flag list" where
  "amended_line_flags U txt lines i =
     (if py_in critical_marker (lines ! i) then [critical_flag U (lines ! i)]
      else if py_in abnormal_marker (lines ! i)
              \<and> py_in (py ''RED FLAG'') (preceding_window txt (line_offset lines i))
      then [abnormal_flag U (lines ! i)]
      else [])"

text \<open>
  The text of line \<open>i\<close> occurs nowhere in the summary before the line itself.
\<close>

definition first_at_own_position :: "pystr \<Rightarrow> pystr list \<Rightarrow> nat \<Rightarrow> bool" where
  "first_at_own_position txt lines i =
     (\<forall>k < line_offset lines i. \<not> startswith (lines ! i) (drop k txt))"

text \<open>
  The text \<open>line\<close> occurs in the summary at position \<open>k\<close> and at no earlier position.
\<close>

definition first_occurrence :: "pystr \<Rightarrow> pystr \<Rightarrow> nat \<Rightarrow> bool" where
  "first_occurrence txt line k =
     (k \<le> length txt \<and> startswith line (drop k txt)
      \<and> (\<forall>j<k. \<not> startswith line (drop j txt)))"

text \<open>
  The flags that one round of \<open>red_flags_loop\<close> appends for a line.
\<close>

definition code_line_flags :: "unicode_db \<Rightarrow> pystr \<Rightarrow> pystr \<Rightarrow> red_flag list" where
  "code_line_flags U txt line =
     (if py_in critical_marker line then [critical_flag U line]
      else if py_in abnormal_marker line
              \<and> py_in (py ''RED FLAG'')
                   (py_slice txt (max 0 (py_find txt line - 200)) (py_find txt line))
      then [abnormal_flag U line]
      else [])"

text \<open>
  Three summaries: an abnormal line under the heading in capitals, one under the heading
  in lower case, and one where the abnormal line under the heading repeats the first line
  of the summary, with a critical line between them.
\<close>

definition abnormal_example :: pystr where
  "abnormal_example = py ''RED FLAG'' @ [10] @ abnormal_marker @ py '' BP high''"

definition lowercase_example :: pystr where
  "lowercase_example = py ''red flag'' @ [10] @ abnormal_marker @ py '' BP high''"

definition repeated_example :: pystr where
  "repeated_example =
     abnormal_marker @ py '' BP high'' @ [10] @ critical_marker @ py '' Chest pain'' @ [10]
     @ py ''RED FLAG'' @ [10] @ abnormal_marker @ py '' BP high''"

subsection \<open>The first match of a pattern\<close>

text \<open>
  The ways a pattern matches at position \<open>k\<close> of a text, the positions where it matches at
  all, and the first match: the lowest such position, with group 1 of the first way the
  pattern matches there.
\<close>

definition matches_at :: "unicode_db \<Rightarrow> regex \<Rightarrow> pystr \<Rightarrow> nat \<Rightarrow> match_state list" where
  "matches_at U r s k = rmatch U r (drop k s, None)"

definition match_positions :: "unicode_db \<Rightarrow> regex \<Rightarrow> pystr \<Rightarrow> nat list" where
  "match_positions U r s = filter (\<lambda>k. matches_at U r s k \<noteq> []) [0..<Suc (length s)]"

definition first_match :: "unicode_db \<Rightarrow> regex \<Rightarrow> pystr \<Rightarrow> (nat \<times> pystr option) option" where
  "first_match U r s =
     (case match_positions U r s of
        [] \<Rightarrow> None
      | k # _ \<Rightarrow> Some (k, snd (hd (matches_at U r s k))))"

text \<open>
  The texts a pattern stands for, as a language: what the matcher consumes is one of
  them. A pattern without a capturing group leaves group 1 as it was.
\<close>

inductive accepts :: "unicode_db \<Rightarrow> regex \<Rightarrow> pystr \<Rightarrow> bool" for U :: unicode_db where
  acc_Eps: "accepts U Eps []"
| acc_Lit: "ci_match U p x \<Longrightarrow> accepts U (Lit p) [x]"
| acc_Class: "list_ex (item_match U x) items \<Longrightarrow> accepts U (Class items) [x]"
| acc_NotClass: "\<not> list_ex (item_match U x) items \<Longrightarrow> accepts U (NotClass items) [x]"
| acc_Seq: "accepts U r1 w1 \<Longrightarrow> accepts U r2 w2 \<Longrightarrow> accepts U (Seq r1 r2) (w1 @ w2)"
| acc_Alt1: "accepts U r1 w \<Longrightarrow> accepts U (Alt r1 r2) w"
| acc_Alt2: "accepts U r2 w \<Longrightarrow> accepts U (Alt r1 r2) w"
| acc_Star0: "accepts U (Star r) []"
| acc_StarN: "accepts U r w1 \<Longrightarrow> accepts U (Star r) w2 \<Longrightarrow> accepts U (Star r) (w1 @ w2)"
| acc_Group: "accepts U r w \<Longrightarrow> accepts U (Group r) w"

fun no_group :: "regex \<Rightarrow> bool" where
  "no_group (Seq r1 r2) = (no_group r1 \<and> no_group r2)"
| "no_group (Alt r1 r2) = (no_group r1 \<and> no_group r2)"
| "no_group (Star r) = no_group r"
| "no_group (Group r) = False"
| "no_group r = True"

section \<open>Lemmas on strings\<close>

lemma py_split_not_Nil: "py_split sep s \<noteq> []"
  by (induction s) (auto split: list.splits)

lemma py_split_no_sep: "sep \<notin> set s \<Longrightarrow> py_split sep s = [s]"
  by (induction s) auto

lemma length_py_split: "length (py_split sep s) = Suc (count_list s sep)"
  by (induction s) (auto split: list.splits)

lemma last_py_split_append:
  "last (py_split sep (base @ sep # ext)) = last (py_split sep ext)"
proof (induction base)
  case Nil
  then show ?case using py_split_not_Nil[of sep ext] by simp
next
  case (Cons c base)
  have "length (py_split sep (base @ sep # ext)) \<ge> 2"
    by (simp add: length_py_split)
  then obtain w v ws where "py_split sep (base @ sep # ext) = w # v # ws"
    by (cases "py_split sep (base @ sep # ext)"; cases "tl (py_split sep (base @ sep # ext))") auto
  with Cons show ?case by auto
qed

lemma last_py_split_suffix:
  "sep \<notin> set ext \<Longrightarrow> last (py_split sep (base @ sep # ext)) = ext"
  by (simp add: last_py_split_append py_split_no_sep)

section \<open>The document state machine\<close>

lemma find_update_same:
  "(\<And>d. doc_id (f d) = doc_id d) \<Longrightarrow>
   find (\<lambda>d. doc_id d = i) (map (\<lambda>d. if doc_id d = i then f d else d) ds)
     = map_option f (find (\<lambda>d. doc_id d = i) ds)"
  by (induction ds) auto

lemma get_document_update:
  "(\<And>d. doc_id (f d) = doc_id d) \<Longrightarrow>
   get_document (update_document i f db) i = map_option f (get_document db i)"
  by (simp add: get_document_def update_document_def find_update_same)

lemma process_commits:
  assumes "get_document db i = Some d"
  shows "\<exists>db1 db2. process_document_background U env i db = [db1, db2]
           \<and> get_document db1 i = Some (d\<lparr>processing_status := Processing\<rparr>)
           \<and> get_document db2 i = Some (document_after U env d)"
proof (cases "document_extraction U env d")
  case (Inl e)
  then show ?thesis using assms
    by (simp add: process_document_background_def Let_def document_extraction_def
          document_after_def get_document_update)
next
  case (Inr t)
  then show ?thesis using assms
    by (simp add: process_document_background_def Let_def document_extraction_def
          document_after_def get_document_update)
qed

lemma after_process_document:
  assumes "get_document db i = Some d"
  shows "get_document (after_process U env i db) i = Some (document_after U env d)"
  using process_commits[OF assms, of U env] by (auto simp: after_process_def)

lemma document_after_status:
  "processing_status (document_after U env d) = Completed
   \<or> processing_status (document_after U env d) = Failed"
  by (simp add: document_after_def split: sum.splits)

lemma process_statuses:
  assumes "get_document db i = Some d"
  shows "map (status_in i) (process_document_background U env i db)
         = [Some Processing, Some (processing_status (document_after U env d))]"
  using process_commits[OF assms, of U env] by (auto simp: status_in_def)

lemma document_after_Inl:
  "document_extraction U env d = Inl e \<Longrightarrow>
   document_after U env d = d\<lparr>processing_status := Failed, error_message := Some (str_exception e)\<rparr>"
  by (simp add: document_after_def)

lemma document_after_Inr:
  "document_extraction U env d = Inr t \<Longrightarrow>
   document_after U env d
   = d\<lparr>ocr_text := Some t, processed := True, processing_status := Completed\<rparr>"
  by (simp add: document_after_def)

lemma document_after_file_name: "file_name (document_after U env d) = file_name d"
  by (simp add: document_after_def split: sum.splits)

lemma scan_extraction_fails:
  "file_name d = py ''scan.png'' \<Longrightarrow>
   document_extraction U failing_env d = Inl (LibraryError (py ''cannot identify image file''))"
  by (simp add: document_extraction_def extract_text_from_file_def Let_def lower_def is_ascii_def
        ascii_lower_def py_def supported_image_types_def process_image_def failing_env_def)

lemma scan_extraction_reads:
  "file_name d = py ''scan.png'' \<Longrightarrow>
   document_extraction U reading_env d = Inr (py ''Hb 9.2'')"
  by (simp add: document_extraction_def extract_text_from_file_def Let_def lower_def is_ascii_def
        ascii_lower_def py_def supported_image_types_def process_image_def reading_env_def)

lemma scan_document_name: "file_name scan_document = py ''scan.png''"
  by (simp add: scan_document_def)

lemma get_scan: "get_document scan_db 4 = Some scan_document"
  by (simp add: get_document_def scan_db_def scan_document_def)

lemma after_reading_scan:
  "document_after U reading_env scan_document
   = scan_document\<lparr>ocr_text := Some (py ''Hb 9.2''), processed := True,
                    processing_status := Completed\<rparr>"
  by (rule document_after_Inr[OF scan_extraction_reads[OF scan_document_name]])

lemma after_failing_scan:
  "document_after U failing_env scan_document
   = scan_document\<lparr>processing_status := Failed,
                    error_message := Some (py ''cannot identify image file'')\<rparr>"
  using document_after_Inl[OF scan_extraction_fails[OF scan_document_name], of U] by simp

lemma all_steps_Cons2:
  "all_steps R (a # b # c # rest) = (R a b \<and> R b c \<and> all_steps R (c # rest))"
  by simp

lemma after_process_status:
  assumes "get_document db i = Some d"
  shows "status_in i (after_process U env i db) = Some (processing_status (document_after U env d))"
  by (simp add: status_in_def after_process_document[OF assms])

lemma process_runs_steps:
  assumes "get_document db i = Some d"
  shows "all_steps code_step (status_in i db # map (status_in i) (process_runs U envs i db))"
  using assms
proof (induction envs arbitrary: db d)
  case Nil
  then show ?case by simp
next
  case (Cons env envs)
  let ?db2 = "after_process U env i db"
  let ?t = "processing_status (document_after U env d)"
  have g2: "get_document ?db2 i = Some (document_after U env d)"
    by (rule after_process_document[OF Cons.prems])
  have ih: "all_steps code_step (status_in i ?db2 # map (status_in i) (process_runs U envs i ?db2))"
    by (rule Cons.IH[OF g2])
  have s0: "status_in i db = Some (processing_status d)"
    by (simp add: status_in_def Cons.prems)
  have s2: "status_in i ?db2 = Some ?t"
    by (rule after_process_status[OF Cons.prems])
  have t: "?t = Completed \<or> ?t = Failed"
    by (rule document_after_status)
  have "status_in i db # map (status_in i) (process_runs U (env # envs) i db)
        = Some (processing_status d) # Some Processing # Some ?t
            # map (status_in i) (process_runs U envs i ?db2)"
    by (simp add: s0 process_statuses[OF Cons.prems])
  moreover have "code_step (Some (processing_status d)) (Some Processing)" by simp
  moreover have "code_step (Some Processing) (Some ?t)" using t by auto
  ultimately show ?case using ih s2 by (simp only: all_steps_Cons2)
qed

lemma scan_two_failing_runs:
  "map (status_in 4) (scan_db # process_runs U [failing_env, failing_env] 4 scan_db)
   = [Some Pending, Some Processing, Some Failed, Some Processing, Some Failed]"
proof -
  let ?d1 = "document_after U failing_env scan_document"
  have g1: "get_document (after_process U failing_env 4 scan_db) 4 = Some ?d1"
    by (rule after_process_document[OF get_scan])
  have n1: "file_name ?d1 = py ''scan.png''"
    by (simp add: document_after_file_name scan_document_name)
  have t1: "processing_status ?d1 = Failed"
    by (simp add: after_failing_scan)
  have t2: "processing_status (document_after U failing_env ?d1) = Failed"
    by (simp add: document_after_Inl[OF scan_extraction_fails[OF n1]])
  have s0: "status_in 4 scan_db = Some Pending"
    by (simp add: status_in_def get_scan scan_document_def)
  show ?thesis
    by (simp add: s0 process_statuses[OF get_scan] process_statuses[OF g1] t1 t2)
qed

lemma word_extension:
  assumes "name = base @ py ''.doc'' \<or> name = base @ py ''.docx''"
  shows "lower U (last (py_split (of_char CHR ''.'') name)) = py ''doc''
         \<or> lower U (last (py_split (of_char CHR ''.'') name)) = py ''docx''"
proof -
  have dot: "(of_char CHR ''.'' :: nat) = 46" by simp
  have a: "last (py_split 46 (base @ 46 # py ''doc'')) = py ''doc''"
    by (rule last_py_split_suffix) (simp add: py_def)
  have b: "last (py_split 46 (base @ 46 # py ''docx'')) = py ''docx''"
    by (rule last_py_split_suffix) (simp add: py_def)
  have c: "py ''.doc'' = 46 # py ''doc''" "py ''.docx'' = 46 # py ''docx''"
    by (simp_all add: py_def)
  have l: "lower U (py ''doc'') = py ''doc''" "lower U (py ''docx'') = py ''docx''"
    by (simp_all add: lower_def is_ascii_def ascii_lower_def py_def)
  from assms show ?thesis
    unfolding dot by (elim disjE) (simp_all only: c a b l simp_thms)
qed

lemma word_type_unsupported:
  assumes "ext = py ''doc'' \<or> ext = py ''docx''"
  shows "fst (extract_text_from_file U env p ext)
         = Inl (ValueError (py ''Unsupported file type: '' @ ext))"
proof -
  have l: "lower U ext = ext"
    using assms by (auto simp: lower_def is_ascii_def ascii_lower_def py_def)
  have "ext \<noteq> py ''pdf''" "ext \<notin> set supported_image_types"
    using assms by (auto simp: supported_image_types_def py_def)
  then show ?thesis
    by (simp add: extract_text_from_file_def Let_def l)
qed

lemma word_extraction:
  assumes "file_name d = base @ py ''.doc'' \<or> file_name d = base @ py ''.docx''"
  shows "\<exists>e. document_extraction U env d = Inl e"
  unfolding document_extraction_def
  using word_type_unsupported[OF word_extension[OF assms], of U env "file_path d"] by blast

lemma word_document_after:
  assumes "file_name d = base @ py ''.doc'' \<or> file_name d = base @ py ''.docx''"
  shows "processing_status (document_after U env d) = Failed"
  using word_extraction[OF assms, of U env] by (auto simp: document_after_Inl)

lemma word_runs:
  assumes "get_document db i = Some d"
    and "file_name d = base @ py ''.doc'' \<or> file_name d = base @ py ''.docx''"
  shows "Some Completed \<notin> set (map (status_in i) (process_runs U envs i db))
         \<and> (envs \<noteq> [] \<longrightarrow> status_in i (last (db # process_runs U envs i db)) = Some Failed)"
  using assms
proof (induction envs arbitrary: db d)
  case Nil
  then show ?case by simp
next
  case (Cons env envs)
  let ?db2 = "after_process U env i db"
  let ?d2 = "document_after U env d"
  have g2: "get_document ?db2 i = Some ?d2"
    by (rule after_process_document[OF Cons.prems(1)])
  have n2: "file_name ?d2 = base @ py ''.doc'' \<or> file_name ?d2 = base @ py ''.docx''"
    using Cons.prems(2) by (simp add: document_after_file_name)
  have t: "processing_status ?d2 = Failed"
    by (rule word_document_after[OF Cons.prems(2)])
  have ih: "Some Completed \<notin> set (map (status_in i) (process_runs U envs i ?db2))
         \<and> (envs \<noteq> [] \<longrightarrow> status_in i (last (?db2 # process_runs U envs i ?db2)) = Some Failed)"
    by (rule Cons.IH[OF g2 n2])
  have st: "map (status_in i) (process_document_background U env i db)
            = [Some Processing, Some Failed]"
    by (simp add: process_statuses[OF Cons.prems(1)] t)
  have s2: "status_in i ?db2 = Some Failed"
    by (simp add: after_process_status[OF Cons.prems(1)] t)
  have ne: "process_document_background U env i db \<noteq> []"
    using st by auto
  have l0: "last (db # process_document_background U env i db) = ?db2"
    by (simp add: after_process_def)
  have la: "last (db # process_runs U (env # envs) i db)
            = last (?db2 # process_runs U envs i ?db2)"
  proof (cases "process_runs U envs i ?db2 = []")
    case True
    then show ?thesis using ne l0 by simp
  next
    case False
    then show ?thesis by simp
  qed
  have part1: "Some Completed \<notin> set (map (status_in i) (process_runs U (env # envs) i db))"
    using ih st by simp
  have part2: "status_in i (last (db # process_runs U (env # envs) i db)) = Some Failed"
  proof (cases "envs = []")
    case True
    then show ?thesis unfolding la using s2 by simp
  next
    case False
    then show ?thesis unfolding la using ih by simp
  qed
  from part1 part2 show ?case by simp
qed

section \<open>Storage and upload\<close>

lemma save_file_raises: "\<exists>e. save_file storage file_content patient_id = Inl e"
  by (simp add: save_file_def binary_read_def py_await_def Let_def split: sum.splits)

lemma upload_document_no_record:
  "upload_document U max_upload_size storage new_id patient_id current_user file db
   \<noteq> Inr (doc, db1)"
proof -
  obtain e where "save_file storage file patient_id = Inl e"
    using save_file_raises by blast
  then show ?thesis
    by (simp add: upload_document_def Let_def split: option.splits)
qed

lemma upload_document_raises:
  assumes "find (\<lambda>p. pat_id p = patient_id) (patients db) \<noteq> None"
    and "lower U (last (py_split (of_char CHR ''.'') (filename file))) \<in> set allowed_extensions"
    and "file_bytes file \<le> max_upload_size"
  shows "\<exists>e. upload_document U max_upload_size storage new_id patient_id current_user file db
              = Inl (Raised e)"
proof -
  obtain e where "save_file storage file patient_id = Inl e"
    using save_file_raises by blast
  with assms show ?thesis
    by (auto simp: upload_document_def Let_def)
qed

lemma get_word: "get_document word_db 9 = Some word_document"
  by (simp add: get_document_def word_db_def word_document_def)

section \<open>Lemmas on the summarization service\<close>

lemma calculate_age_datetime:
  "calculate_age other today (DobDatetime d)
   = Inr (str_int (year today - year d
            - (if month today < month d \<or> (month today = month d \<and> day today < day d)
               then 1 else 0)))"
  by (simp add: calculate_age_def calculate_age_try_def tuple_less_def)

lemma calculate_age_returns: "\<exists>s. calculate_age other today dob = Inr s"
  by (simp add: calculate_age_def split: sum.splits)

lemma calculate_age_str:
  "calculate_age other today (DobStr s)
   = (if s = [] then Inr (py ''Unknown'')
      else case fromisoformat other (py_replace (py ''Z'') (py ''+00:00'') s) of
             Inl e \<Rightarrow> Inr (py ''Unknown'')
           | Inr d \<Rightarrow> calculate_age other today (DobDatetime d))"
  by (simp add: calculate_age_def calculate_age_try_def tuple_less_def split: sum.splits)

lemma replace_date: "py_replace (py ''Z'') (py ''+00:00'') (py ''2000-06-15'') = py ''2000-06-15''"
  by (simp add: py_replace_def py_def startswith_def)

lemma parse_date: "fromisoformat other (py ''2000-06-15'') = Inr \<lparr>year = 2000, month = 6, day = 15\<rparr>"
  by (simp add: fromisoformat_def py_def is_ascii_digit_def digits_value_def days_in_month_def Let_def)

lemma str_23: "str_int 23 = py ''23''" "str_int 24 = py ''24''"
  by (simp_all add: str_int_def str_nat.simps py_def)

lemma red_flags_loop_flags:
  "red_flags_loop U txt ls acc = acc @ concat (map (code_line_flags U txt) ls)"
  by (induction ls arbitrary: acc)
     (simp_all add: code_line_flags_def critical_flag_def abnormal_flag_def)

lemma line_offset_0: "line_offset lines 0 = 0"
  by (simp add: line_offset_def)

lemma line_offset_Suc: "line_offset (l # ls) (Suc i) = Suc (length l + line_offset ls i)"
  by (simp add: line_offset_def)

lemma startswith_Nil: "startswith [] s"
  by (simp add: startswith_def)

lemma startswith_Cons: "startswith (c # p) (c # s) = startswith p s"
  by (simp add: startswith_def)

lemma line_at_own_offset:
  "i < length (py_split sep s) \<Longrightarrow>
   line_offset (py_split sep s) i \<le> length s
   \<and> startswith (py_split sep s ! i) (drop (line_offset (py_split sep s) i) s)"
proof (induction s arbitrary: i)
  case Nil
  then show ?case by (simp add: line_offset_0 startswith_Nil)
next
  case (Cons c cs)
  show ?case
  proof (cases "c = sep")
    case True
    then have s: "py_split sep (c # cs) = [] # py_split sep cs" by simp
    show ?thesis
    proof (cases i)
      case 0
      show ?thesis unfolding s 0 by (simp add: line_offset_0 startswith_Nil)
    next
      case (Suc j)
      with Cons.prems have "j < length (py_split sep cs)" unfolding s by simp
      from Cons.IH[OF this] show ?thesis
        unfolding s Suc by (simp add: line_offset_Suc)
    qed
  next
    case False
    obtain w ws where ws: "py_split sep cs = w # ws"
      using py_split_not_Nil[of sep cs] by (cases "py_split sep cs") auto
    with False have s: "py_split sep (c # cs) = (c # w) # ws" by simp
    show ?thesis
    proof (cases i)
      case 0
      have "0 < length (py_split sep cs)" by (simp add: ws)
      from Cons.IH[OF this] have "startswith w cs"
        by (simp add: ws line_offset_0)
      then show ?thesis unfolding s 0 by (simp add: line_offset_0 startswith_Cons)
    next
      case (Suc j)
      with Cons.prems have "Suc j < length (py_split sep cs)" unfolding s ws by simp
      from Cons.IH[OF this] show ?thesis
        unfolding s ws Suc by (simp add: line_offset_Suc)
    qed
  qed
qed

lemma find_from_first:
  "k \<le> length s \<Longrightarrow> startswith sub (drop k s) \<Longrightarrow>
   (\<forall>j<k. \<not> startswith sub (drop j s)) \<Longrightarrow> find_from sub s i = int (i + k)"
proof (induction s arbitrary: i k)
  case Nil
  then show ?case by (simp add: startswith_def)
next
  case (Cons c cs)
  show ?case
  proof (cases k)
    case 0
    with Cons.prems show ?thesis by simp
  next
    case (Suc k')
    with Cons.prems have n0: "\<not> startswith sub (c # cs)" by force
    have a: "k' \<le> length cs" using Cons.prems Suc by simp
    have b: "startswith sub (drop k' cs)" using Cons.prems Suc by simp
    have c: "\<forall>j<k'. \<not> startswith sub (drop j cs)"
    proof (intro allI impI)
      fix j assume "j < k'"
      then have "Suc j < k" using Suc by simp
      with Cons.prems(3) have "\<not> startswith sub (drop (Suc j) (c # cs))" by blast
      then show "\<not> startswith sub (drop j cs)" by simp
    qed
    from Cons.IH[OF a b c, of "Suc i"] n0 Suc show ?thesis by simp
  qed
qed

lemma py_slice_window:
  "py_slice s (max 0 (int k - 200)) (int k) = preceding_window s k"
proof -
  have lo: "slice_index (length s) (max 0 (int k - 200)) = min (k - 200) (length s)"
    by (simp add: slice_index_def)
  have hi: "slice_index (length s) (int k) = min k (length s)"
    by (simp add: slice_index_def)
  show ?thesis
    by (simp add: py_slice_def lo hi preceding_window_def Let_def drop_take min_def)
qed

lemma map_by_index: "map f xs = map (\<lambda>i. f (xs ! i)) [0..<length xs]"
proof -
  have "map (\<lambda>i. f (xs ! i)) [0..<length xs] = map f (map (\<lambda>i. xs ! i) [0..<length xs])"
    by (simp only: map_map o_def)
  then show ?thesis by (simp only: map_nth)
qed

lemma code_line_flags_amended:
  assumes i: "i < length (py_split 10 summary_text)"
    and own: "py_in abnormal_marker (py_split 10 summary_text ! i)
              \<and> \<not> py_in critical_marker (py_split 10 summary_text ! i)
              \<longrightarrow> first_at_own_position summary_text (py_split 10 summary_text) i"
  shows "code_line_flags U summary_text (py_split 10 summary_text ! i)
         = amended_line_flags U summary_text (py_split 10 summary_text) i"
proof (cases "py_in abnormal_marker (py_split 10 summary_text ! i)
              \<and> \<not> py_in critical_marker (py_split 10 summary_text ! i)")
  case True
  with own have fa: "first_at_own_position summary_text (py_split 10 summary_text) i" by blast
  from line_at_own_offset[OF i]
  have le: "line_offset (py_split 10 summary_text) i \<le> length summary_text"
    and sw: "startswith (py_split 10 summary_text ! i)
               (drop (line_offset (py_split 10 summary_text) i) summary_text)"
    by blast+
  have "find_from (py_split 10 summary_text ! i) summary_text 0
        = int (0 + line_offset (py_split 10 summary_text) i)"
    using fa unfolding first_at_own_position_def by (intro find_from_first[OF le sw]) 
  then have f: "py_find summary_text (py_split 10 summary_text ! i)
                = int (line_offset (py_split 10 summary_text) i)"
    by (simp add: py_find_def)
  show ?thesis
    by (simp add: code_line_flags_def amended_line_flags_def f py_slice_window)
next
  case False
  then show ?thesis
    by (auto simp: code_line_flags_def amended_line_flags_def)
qed

lemma abnormal_example_lines:
  "py_split 10 abnormal_example = [py ''RED FLAG'', abnormal_marker @ py '' BP high'']"
  by (simp add: abnormal_example_def py_def abnormal_marker_def)

lemma find_from_range: "find_from sub s i = - 1 \<or> int i \<le> find_from sub s i"
  by (induction s arbitrary: i) (auto, force)

lemma find_from_none_before:
  "find_from sub s i = int (i + k) \<Longrightarrow> \<forall>j<k. \<not> startswith sub (drop j s)"
proof (induction s arbitrary: i k)
  case Nil
  then show ?case by (simp split: if_splits)
next
  case (Cons c cs)
  show ?case
  proof (cases "startswith sub (c # cs)")
    case True
    with Cons.prems have "k = 0" by simp
    then show ?thesis by simp
  next
    case False
    with Cons.prems have f: "find_from sub cs (Suc i) = int (i + k)" by simp
    with find_from_range[of sub cs "Suc i"] have "k \<noteq> 0" by auto
    then obtain k' where k: "k = Suc k'" by (cases k) auto
    with f have "find_from sub cs (Suc i) = int (Suc i + k')" by simp
    from Cons.IH[OF this] have ih: "\<forall>j<k'. \<not> startswith sub (drop j cs)" .
    show ?thesis
    proof (intro allI impI)
      fix j assume j: "j < k"
      show "\<not> startswith sub (drop j (c # cs))"
      proof (cases j)
        case 0
        with False show ?thesis by simp
      next
        case (Suc j')
        with j k ih show ?thesis by simp
      qed
    qed
  qed
qed

lemma first_at_own_position_by_find:
  "py_find summary_text (ls ! i) = int (line_offset ls i) \<Longrightarrow>
   first_at_own_position summary_text ls i"
  unfolding first_at_own_position_def py_find_def
  using find_from_none_before[of "ls ! i" summary_text 0 "line_offset ls i"] by simp

lemma abnormal_example_find:
  "py_find abnormal_example (abnormal_marker @ py '' BP high'') = 9"
  by (simp add: py_find_def abnormal_example_def py_def abnormal_marker_def startswith_def)

lemma abnormal_example_offset:
  "line_offset [py ''RED FLAG'', abnormal_marker @ py '' BP high''] (Suc 0) = 9"
  by (simp add: line_offset_def py_def abnormal_marker_def)

lemma abnormal_example_own:
  "first_at_own_position abnormal_example [py ''RED FLAG'', abnormal_marker @ py '' BP high''] 1"
  by (rule first_at_own_position_by_find) (simp add: abnormal_example_find abnormal_example_offset)

lemma abnormal_example_flags:
  "amended_line_flags example_unicode abnormal_example
     [py ''RED FLAG'', abnormal_marker @ py '' BP high''] 0 = []"
  "amended_line_flags example_unicode abnormal_example
     [py ''RED FLAG'', abnormal_marker @ py '' BP high''] 1
   = [\<lparr>category = py ''abnormal'', finding = py ''BP high'', severity = py ''medium''\<rparr>]"
  by (simp_all add: amended_line_flags_def line_offset_def preceding_window_def
        abnormal_flag_def abnormal_example_def py_def abnormal_marker_def critical_marker_def
        startswith_def py_strip_def py_replace_def isspace_def example_unicode_def)

lemma lowercase_example_lines:
  "py_split 10 lowercase_example = [py ''red flag'', abnormal_marker @ py '' BP high'']"
  by (simp add: lowercase_example_def py_def abnormal_marker_def)

lemma first_occurrence_exists:
  assumes "m \<le> length s" "startswith sub (drop m s)"
  shows "\<exists>k\<le>m. first_occurrence s sub k"
proof -
  define k where "k = (LEAST k. startswith sub (drop k s))"
  from assms(2) have p: "startswith sub (drop k s)" unfolding k_def by (rule LeastI)
  from assms(2) have le: "k \<le> m" unfolding k_def by (rule Least_le)
  have "\<not> startswith sub (drop j s)" if "j < k" for j
    using that unfolding k_def by (rule not_less_Least)
  with p le assms(1) have "k \<le> m \<and> first_occurrence s sub k"
    by (simp add: first_occurrence_def)
  then show ?thesis by blast
qed

lemma first_occurrence_find:
  "first_occurrence s sub k \<Longrightarrow> py_find s sub = int k"
  unfolding first_occurrence_def py_find_def
  using find_from_first[of k s sub 0] by simp

lemma code_line_flags_critical:
  "py_in critical_marker line \<Longrightarrow> code_line_flags U txt line = [critical_flag U line]"
  by (simp add: code_line_flags_def)

lemma code_line_flags_none:
  "\<not> py_in critical_marker line \<Longrightarrow> \<not> py_in abnormal_marker line \<Longrightarrow>
   code_line_flags U txt line = []"
  by (simp add: code_line_flags_def)

lemma code_line_flags_abnormal:
  "\<not> py_in critical_marker line \<Longrightarrow> py_in abnormal_marker line \<Longrightarrow>
   first_occurrence txt line k \<Longrightarrow>
   code_line_flags U txt line
   = (if py_in (py ''RED FLAG'') (preceding_window txt k) then [abnormal_flag U line] else [])"
  by (simp add: code_line_flags_def first_occurrence_find py_slice_window)

lemma repeated_example_lines:
  "py_split 10 repeated_example
   = [abnormal_marker @ py '' BP high'', critical_marker @ py '' Chest pain'', py ''RED FLAG'',
      abnormal_marker @ py '' BP high'']"
  by (simp add: repeated_example_def py_def abnormal_marker_def critical_marker_def)

lemma example_markers:
  "py_in abnormal_marker (abnormal_marker @ py '' BP high'')"
  "\<not> py_in critical_marker (abnormal_marker @ py '' BP high'')"
  "py_in critical_marker (critical_marker @ py '' Chest pain'')"
  "\<not> py_in abnormal_marker (py ''RED FLAG'')"
  "\<not> py_in critical_marker (py ''RED FLAG'')"
  by (simp_all add: py_def abnormal_marker_def critical_marker_def startswith_def)

lemma repeated_example_first:
  "first_occurrence repeated_example (abnormal_marker @ py '' BP high'') 0"
  by (simp add: first_occurrence_def repeated_example_def startswith_def)

lemma repeated_example_window:
  "\<not> py_in (py ''RED FLAG'') (preceding_window repeated_example 0)"
  "py_in (py ''RED FLAG'') (preceding_window repeated_example 33)"
  "line_offset (py_split 10 repeated_example) 3 = 33"
  unfolding repeated_example_lines
  by (simp_all add: preceding_window_def repeated_example_def py_def abnormal_marker_def
        critical_marker_def startswith_def line_offset_def)

lemma example_critical_flag:
  "critical_flag example_unicode (critical_marker @ py '' Chest pain'')
   = \<lparr>category = py ''critical'', finding = py ''Chest pain'', severity = py ''critical''\<rparr>"
  by (simp add: critical_flag_def py_def critical_marker_def startswith_def py_strip_def
        py_replace_def isspace_def example_unicode_def)

section \<open>Lemmas on the matcher and the lab results\<close>

lemma upt_Suc_shift: "[0..<Suc (Suc n)] = 0 # map Suc [0..<Suc n]"
  by (simp only: upt_conv_Cons[of 0 "Suc (Suc n)"] map_Suc_upt)

lemma matches_at_0: "matches_at U r s 0 = rmatch U r (s, None)"
  by (simp add: matches_at_def)

lemma matches_at_Suc: "matches_at U r (c # cs) (Suc k) = matches_at U r cs k"
  by (simp add: matches_at_def)

lemma match_positions_Nil:
  "match_positions U r [] = (if rmatch U r ([], None) \<noteq> [] then [0] else [])"
  by (simp add: match_positions_def matches_at_def)

lemma match_positions_Cons:
  "match_positions U r (c # cs)
   = (if rmatch U r (c # cs, None) \<noteq> [] then [0] else []) @ map Suc (match_positions U r cs)"
proof -
  have "filter (\<lambda>k. matches_at U r (c # cs) k \<noteq> []) (map Suc [0..<Suc (length cs)])
        = map Suc (filter (\<lambda>k. matches_at U r cs k \<noteq> []) [0..<Suc (length cs)])"
    by (simp add: filter_map comp_def matches_at_Suc del: upt_Suc)
  moreover have "[0..<Suc (length (c # cs))] = 0 # map Suc [0..<Suc (length cs)]"
    by (simp only: length_Cons upt_Suc_shift)
  ultimately show ?thesis
    unfolding match_positions_def by (simp add: matches_at_0 del: upt_Suc)
qed

lemma first_match_Nil:
  "first_match U r []
   = (if rmatch U r ([], None) \<noteq> [] then Some (0, snd (hd (rmatch U r ([], None)))) else None)"
  by (simp add: first_match_def match_positions_Nil matches_at_0)

lemma first_match_Cons:
  "first_match U r (c # cs)
   = (if rmatch U r (c # cs, None) \<noteq> [] then Some (0, snd (hd (rmatch U r (c # cs, None))))
      else map_option (\<lambda>(k, g). (Suc k, g)) (first_match U r cs))"
  by (cases "match_positions U r cs")
     (simp_all add: first_match_def match_positions_Cons matches_at_0 matches_at_Suc)

lemma re_search_first_match: "re_search U r s = map_option snd (first_match U r s)"
proof (induction s)
  case Nil
  show ?case
    by (cases "rmatch U r ([], None)") (auto simp: first_match_Nil)
next
  case (Cons c cs)
  show ?case
  proof (cases "rmatch U r (c # cs, None)")
    case Nil
    then show ?thesis
      using Cons.IH by (cases "first_match U r cs") (auto simp: first_match_Cons)
  next
    case (Cons m ms)
    then show ?thesis
      by (cases m) (simp add: first_match_Cons)
  qed
qed

lemma in_guarded_concat:
  "x \<in> set (concat (map (\<lambda>y. if P y then f y else []) ys) @ [z])
   \<longleftrightarrow> (\<exists>y. y \<in> set ys \<and> P y \<and> x \<in> set (f y)) \<or> x = z"
  by (induction ys) auto

lemma rmatch_sound:
  "(s', g') \<in> set (rmatch U r st) \<Longrightarrow> \<exists>w. fst st = w @ s' \<and> accepts U r w"
proof (induction U r st arbitrary: s' g' rule: rmatch.induct)
  case (1 U st)
  then have "fst st = [] @ s' \<and> accepts U Eps []" by (auto simp add: acc_Eps)
  then show ?case by (rule exI)
next
  case (2 U p s g)
  then obtain x where x: "s = x # s'" "ci_match U p x"
    by (cases s) (simp_all split: if_splits)
  then have "fst (s, g) = [x] @ s' \<and> accepts U (Lit p) [x]" by (simp add: acc_Lit)
  then show ?case by (rule exI)
next
  case (3 U items s g)
  then obtain x where x: "s = x # s'" "list_ex (item_match U x) items"
    by (cases s) (simp_all split: if_splits)
  then have "fst (s, g) = [x] @ s' \<and> accepts U (Class items) [x]" by (simp add: acc_Class)
  then show ?case by (rule exI)
next
  case (4 U items s g)
  then obtain x where x: "s = x # s'" "\<not> list_ex (item_match U x) items"
    by (cases s) (simp_all split: if_splits)
  then have "fst (s, g) = [x] @ s' \<and> accepts U (NotClass items) [x]"
    by (simp add: acc_NotClass)
  then show ?case by (rule exI)
next
  case (5 U r1 r2 st)
  from "5.prems" obtain mid where m: "mid \<in> set (rmatch U r1 st)"
    and e: "(s', g') \<in> set (rmatch U r2 mid)" by auto
  obtain ms mg where mid: "mid = (ms, mg)" by (cases mid)
  from m mid have m': "(ms, mg) \<in> set (rmatch U r1 st)" by simp
  from "5.IH"(1)[OF m'] obtain w1 where w1: "fst st = w1 @ ms" "accepts U r1 w1" by (elim exE conjE)
  from "5.IH"(2)[OF m e] obtain w2 where w2: "fst mid = w2 @ s'" "accepts U r2 w2"
    by (elim exE conjE)
  from w1(1) w2(1) mid have "fst st = (w1 @ w2) @ s'" by simp
  moreover from w1(2) w2(2) have "accepts U (Seq r1 r2) (w1 @ w2)" by (rule acc_Seq)
  ultimately have "fst st = (w1 @ w2) @ s' \<and> accepts U (Seq r1 r2) (w1 @ w2)" by (rule conjI)
  then show ?case by (rule exI)
next
  case (6 U r1 r2 st)
  from "6.prems" have "(s', g') \<in> set (rmatch U r1 st) \<or> (s', g') \<in> set (rmatch U r2 st)"
    by simp
  then show ?case
  proof
    assume l: "(s', g') \<in> set (rmatch U r1 st)"
    from "6.IH"(1)[OF l] obtain w where w: "fst st = w @ s'" "accepts U r1 w"
      by (elim exE conjE)
    from w(2) have "accepts U (Alt r1 r2) w" by (rule acc_Alt1)
    with w(1) have "fst st = w @ s' \<and> accepts U (Alt r1 r2) w" by (rule conjI)
    then show ?thesis by (rule exI)
  next
    assume l: "(s', g') \<in> set (rmatch U r2 st)"
    from "6.IH"(2)[OF l] obtain w where w: "fst st = w @ s'" "accepts U r2 w"
      by (elim exE conjE)
    from w(2) have "accepts U (Alt r1 r2) w" by (rule acc_Alt2)
    with w(1) have "fst st = w @ s' \<and> accepts U (Alt r1 r2) w" by (rule conjI)
    then show ?thesis by (rule exI)
  qed
next
  case (7 U r st)
  from "7.prems" have "(\<exists>mid. mid \<in> set (rmatch U r st) \<and> length (fst mid) < length (fst st)
        \<and> (s', g') \<in> set (rmatch U (Star r) mid)) \<or> (s', g') = st"
    unfolding rmatch.simps(7)[of U r st] in_guarded_concat .
  then show ?case
  proof
    assume "(s', g') = st"
    then have "fst st = [] @ s' \<and> accepts U (Star r) []" by (auto simp add: acc_Star0)
    then show ?thesis by (rule exI)
  next
    assume "\<exists>mid. mid \<in> set (rmatch U r st) \<and> length (fst mid) < length (fst st)
        \<and> (s', g') \<in> set (rmatch U (Star r) mid)"
    then obtain mid where m: "mid \<in> set (rmatch U r st)"
      and l: "length (fst mid) < length (fst st)"
      and e: "(s', g') \<in> set (rmatch U (Star r) mid)" by (elim exE conjE)
    obtain ms mg where mid: "mid = (ms, mg)" by (cases mid)
    from m mid have m': "(ms, mg) \<in> set (rmatch U r st)" by simp
    from "7.IH"(1)[OF m'] obtain w1 where w1: "fst st = w1 @ ms" "accepts U r w1"
      by (elim exE conjE)
    from "7.IH"(2)[OF m l e] obtain w2 where w2: "fst mid = w2 @ s'" "accepts U (Star r) w2"
      by (elim exE conjE)
    from w1(1) w2(1) mid have "fst st = (w1 @ w2) @ s'" by simp
    moreover from w1(2) w2(2) have "accepts U (Star r) (w1 @ w2)" by (rule acc_StarN)
    ultimately have "fst st = (w1 @ w2) @ s' \<and> accepts U (Star r) (w1 @ w2)" by (rule conjI)
    then show ?thesis by (rule exI)
  qed
next
  case (8 U r s g)
  from "8.prems" obtain gi where m: "(s', gi) \<in> set (rmatch U r (s, g))" by auto
  from "8.IH"[OF m] obtain w where w: "fst (s, g) = w @ s'" "accepts U r w" by (elim exE conjE)
  from w(2) have "accepts U (Group r) w" by (rule acc_Group)
  with w(1) have "fst (s, g) = w @ s' \<and> accepts U (Group r) w" by (rule conjI)
  then show ?case by (rule exI)
qed

lemma rmatch_no_group:
  "(s', g') \<in> set (rmatch U r st) \<Longrightarrow> no_group r \<Longrightarrow> g' = snd st"
proof (induction U r st arbitrary: s' g' rule: rmatch.induct)
  case (1 U st)
  then show ?case by auto
next
  case (2 U p s g)
  then show ?case by (cases s) (simp_all split: if_splits)
next
  case (3 U items s g)
  then show ?case by (cases s) (simp_all split: if_splits)
next
  case (4 U items s g)
  then show ?case by (cases s) (simp_all split: if_splits)
next
  case (5 U r1 r2 st)
  from "5.prems"(1) obtain mid where m: "mid \<in> set (rmatch U r1 st)"
    and e: "(s', g') \<in> set (rmatch U r2 mid)" by auto
  obtain ms mg where mid: "mid = (ms, mg)" by (cases mid)
  from m mid have m': "(ms, mg) \<in> set (rmatch U r1 st)" by simp
  from "5.prems"(2) have n: "no_group r1" "no_group r2" by simp_all
  from "5.IH"(1)[OF m' n(1)] have "mg = snd st" .
  moreover from "5.IH"(2)[OF m e n(2)] mid have "g' = mg" by simp
  ultimately show ?case by simp
next
  case (6 U r1 r2 st)
  from "6.prems"(1) have "(s', g') \<in> set (rmatch U r1 st) \<or> (s', g') \<in> set (rmatch U r2 st)"
    by simp
  moreover from "6.prems"(2) have n: "no_group r1" "no_group r2" by simp_all
  ultimately show ?case using "6.IH"(1)[OF _ n(1)] "6.IH"(2)[OF _ n(2)] by blast
next
  case (7 U r st)
  from "7.prems"(1) have "(\<exists>mid. mid \<in> set (rmatch U r st) \<and> length (fst mid) < length (fst st)
        \<and> (s', g') \<in> set (rmatch U (Star r) mid)) \<or> (s', g') = st"
    unfolding rmatch.simps(7)[of U r st] in_guarded_concat .
  then show ?case
  proof
    assume "(s', g') = st"
    then show ?thesis by auto
  next
    assume "\<exists>mid. mid \<in> set (rmatch U r st) \<and> length (fst mid) < length (fst st)
        \<and> (s', g') \<in> set (rmatch U (Star r) mid)"
    then obtain mid where m: "mid \<in> set (rmatch U r st)"
      and l: "length (fst mid) < length (fst st)"
      and e: "(s', g') \<in> set (rmatch U (Star r) mid)" by (elim exE conjE)
    obtain ms mg where mid: "mid = (ms, mg)" by (cases mid)
    from m mid have m': "(ms, mg) \<in> set (rmatch U r st)" by simp
    from "7.prems"(2) have n: "no_group r" by simp
    from "7.IH"(1)[OF m' n] have "mg = snd st" .
    moreover from "7.IH"(2)[OF m l e "7.prems"(2)] mid have "g' = mg" by simp
    ultimately show ?thesis by simp
  qed
next
  case (8 U r s g)
  then show ?case by simp
qed

lemma rmatch_Group_capture:
  assumes "(s', g') \<in> set (rmatch U (Group r) (s, g))"
  shows "\<exists>w. s = w @ s' \<and> accepts U r w \<and> g' = Some w"
proof -
  from assms obtain gi where m: "(s', gi) \<in> set (rmatch U r (s, g))"
    and g': "g' = Some (take (length s - length s') s)" by auto
  from rmatch_sound[OF m] obtain w where w: "s = w @ s'" "accepts U r w" by auto
  from w(1) have "take (length s - length s') s = w" by simp
  with w g' have "s = w @ s' \<and> accepts U r w \<and> g' = Some w" by simp
  then show ?thesis by (rule exI)
qed

lemma rmatch_Seq_iff:
  "x \<in> set (rmatch U (Seq r1 r2) st)
   \<longleftrightarrow> (\<exists>mid. mid \<in> set (rmatch U r1 st) \<and> x \<in> set (rmatch U r2 mid))"
  by auto

lemma no_group_lit: "no_group (lit s)"
  by (induction s) (simp_all add: lit_def)

lemma lab_pattern_capture:
  assumes n: "no_group names" "no_group units"
    and m: "(s', g') \<in> set (rmatch U (seqs [names, label_gap, Group body, Star (Class [CSpace]), units]) st)"
  shows "\<exists>v. g' = Some v \<and> accepts U body v"
proof -
  have e: "seqs [names, label_gap, Group body, Star (Class [CSpace]), units]
      = Seq names (Seq label_gap (Seq (Group body) (Seq (Star (Class [CSpace])) (Seq units Eps))))"
    by (simp add: seqs_def)
  from m obtain st1 where 1: "st1 \<in> set (rmatch U names st)"
    and m1: "(s', g') \<in> set (rmatch U (Seq label_gap (Seq (Group body) (Seq (Star (Class [CSpace])) (Seq units Eps)))) st1)"
    unfolding e rmatch_Seq_iff[of _ U names] by (elim exE conjE)
  from m1 obtain st2 where 2: "st2 \<in> set (rmatch U label_gap st1)"
    and m2: "(s', g') \<in> set (rmatch U (Seq (Group body) (Seq (Star (Class [CSpace])) (Seq units Eps))) st2)"
    unfolding rmatch_Seq_iff[of _ U label_gap] by (elim exE conjE)
  from m2 obtain st3 where 3: "st3 \<in> set (rmatch U (Group body) st2)"
    and m3: "(s', g') \<in> set (rmatch U (Seq (Star (Class [CSpace])) (Seq units Eps)) st3)"
    unfolding rmatch_Seq_iff[of _ U "Group body"] by (elim exE conjE)
  from m3 obtain st4 where 4: "st4 \<in> set (rmatch U (Star (Class [CSpace])) st3)"
    and m4: "(s', g') \<in> set (rmatch U (Seq units Eps) st4)"
    unfolding rmatch_Seq_iff[of _ U "Star (Class [CSpace])"] by (elim exE conjE)
  from m4 obtain st5 where 5: "st5 \<in> set (rmatch U units st4)"
    and 6: "(s', g') \<in> set (rmatch U Eps st5)"
    unfolding rmatch_Seq_iff[of _ U units] by (elim exE conjE)
  obtain s2 g2 where st2: "st2 = (s2, g2)" by (cases st2)
  obtain s3 g3 where st3: "st3 = (s3, g3)" by (cases st3)
  obtain s4 g4 where st4: "st4 = (s4, g4)" by (cases st4)
  obtain s5 g5 where st5: "st5 = (s5, g5)" by (cases st5)
  from 3 have "(s3, g3) \<in> set (rmatch U (Group body) (s2, g2))" unfolding st2 st3 .
  from rmatch_Group_capture[OF this] obtain v where v: "accepts U body v" "g3 = Some v"
    by (elim exE conjE)
  have ng: "no_group (Star (Class [CSpace]))" by simp
  from 4 have "(s4, g4) \<in> set (rmatch U (Star (Class [CSpace])) st3)" unfolding st4 .
  from rmatch_no_group[OF this ng] have g4: "g4 = g3" unfolding st3 snd_conv .
  from 5 have "(s5, g5) \<in> set (rmatch U units st4)" unfolding st5 .
  from rmatch_no_group[OF this n(2)] have g5: "g5 = g4" unfolding st4 snd_conv .
  from 6 have "(s', g') = (s5, g5)" unfolding st5 rmatch.simps(1) by simp
  then have "g' = g5" by simp
  with g5 g4 v have "g' = Some v \<and> accepts U body v" by simp
  then show ?thesis by (rule exI)
qed

inductive_simps accepts_Seq_iff: "accepts U (Seq r1 r2) w"
inductive_simps accepts_Alt_iff: "accepts U (Alt r1 r2) w"
inductive_simps accepts_Eps_iff: "accepts U Eps w"
inductive_simps accepts_Lit_iff: "accepts U (Lit p) w"
inductive_simps accepts_Class_iff: "accepts U (Class items) w"

lemma accepts_star_digits:
  "accepts U r w \<Longrightarrow> r = Star (Class [CDigit]) \<Longrightarrow> list_all (isdecimal U) w"
proof (induction rule: accepts.induct)
  case (acc_StarN r w1 w2)
  from acc_StarN.hyps(1) acc_StarN.prems have "accepts U (Class [CDigit]) w1" by simp
  then obtain x where "w1 = [x]" "list_ex (item_match U x) [CDigit]"
    unfolding accepts_Class_iff by (elim exE conjE)
  then have "list_all (isdecimal U) w1" by simp
  moreover from acc_StarN.IH(2) acc_StarN.prems have "list_all (isdecimal U) w2" by simp
  ultimately show ?case by simp
qed simp_all

lemma accepts_number:
  assumes "accepts U (seqs [Plus (Class [CDigit]), Opt (Lit 46), Star (Class [CDigit])]) v"
  shows "\<exists>a d b. v = a @ d @ b \<and> a \<noteq> [] \<and> list_all (isdecimal U) a
           \<and> (d = [] \<or> (\<exists>c. d = [c] \<and> ci_match U 46 c)) \<and> list_all (isdecimal U) b"
proof -
  from assms have "accepts U (Seq (Seq (Class [CDigit]) (Star (Class [CDigit])))
                     (Seq (Alt (Lit 46) Eps) (Seq (Star (Class [CDigit])) Eps))) v"
    by (simp add: seqs_def Plus_def Opt_def)
  then obtain a r1 where v1: "v = a @ r1"
    and a: "accepts U (Seq (Class [CDigit]) (Star (Class [CDigit]))) a"
    and r1: "accepts U (Seq (Alt (Lit 46) Eps) (Seq (Star (Class [CDigit])) Eps)) r1"
    unfolding accepts_Seq_iff[of U "Seq (Class [CDigit]) (Star (Class [CDigit]))"]
    by (elim exE conjE)
  from r1 obtain d r2 where v2: "r1 = d @ r2"
    and d: "accepts U (Alt (Lit 46) Eps) d"
    and r2: "accepts U (Seq (Star (Class [CDigit])) Eps) r2"
    unfolding accepts_Seq_iff[of U "Alt (Lit 46) Eps"] by (elim exE conjE)
  from r2 obtain b e where v3: "r2 = b @ e"
    and b: "accepts U (Star (Class [CDigit])) b" and e: "accepts U Eps e"
    unfolding accepts_Seq_iff[of U "Star (Class [CDigit])"] by (elim exE conjE)
  from e have e': "e = []" by (simp add: accepts_Eps_iff)
  from a obtain x xs where ax: "a = x @ xs" and x: "accepts U (Class [CDigit]) x"
    and xs: "accepts U (Star (Class [CDigit])) xs"
    unfolding accepts_Seq_iff[of U "Class [CDigit]"] by (elim exE conjE)
  from x obtain c where c: "x = [c]" "list_ex (item_match U c) [CDigit]"
    unfolding accepts_Class_iff by (elim exE conjE)
  from xs have "list_all (isdecimal U) xs" by (rule accepts_star_digits) simp
  with ax c have a': "a \<noteq> []" "list_all (isdecimal U) a" by simp_all
  from d have d': "d = [] \<or> (\<exists>c. d = [c] \<and> ci_match U 46 c)"
    by (auto simp add: accepts_Alt_iff accepts_Eps_iff accepts_Lit_iff)
  from b have b': "list_all (isdecimal U) b" by (rule accepts_star_digits) simp
  from v1 v2 v3 e' have "v = a @ d @ b" by simp
  with a' d' b' have "v = a @ d @ b \<and> a \<noteq> [] \<and> list_all (isdecimal U) a
           \<and> (d = [] \<or> (\<exists>c. d = [c] \<and> ci_match U 46 c)) \<and> list_all (isdecimal U) b"
    by simp
  then show ?thesis by (intro exI)
qed

lemma first_match_Some:
  "first_match U r s = Some (k, g) \<Longrightarrow>
     k \<le> length s \<and> matches_at U r s k \<noteq> [] \<and> (\<forall>j<k. matches_at U r s j = [])
     \<and> g = snd (hd (matches_at U r s k))"
proof (induction s arbitrary: k)
  case Nil
  then show ?case by (simp add: first_match_Nil matches_at_0 split: if_splits)
next
  case (Cons c cs)
  show ?case
  proof (cases "rmatch U r (c # cs, None) = []")
    case False
    with Cons.prems show ?thesis by (simp add: first_match_Cons matches_at_0)
  next
    case True
    with Cons.prems obtain k' where k': "k = Suc k'" "first_match U r cs = Some (k', g)"
      by (auto simp add: first_match_Cons)
    from Cons.IH[OF k'(2)] have ih: "k' \<le> length cs" "matches_at U r cs k' \<noteq> []"
      "\<forall>j<k'. matches_at U r cs j = []" "g = snd (hd (matches_at U r cs k'))" by simp_all
    have "matches_at U r (c # cs) j = []" if "j < k" for j
    proof (cases j)
      case 0
      with True show ?thesis by (simp add: matches_at_0)
    next
      case (Suc j')
      with that k'(1) ih(3) show ?thesis by (simp add: matches_at_Suc)
    qed
    with ih k'(1) show ?thesis by (simp add: matches_at_Suc)
  qed
qed

lemma first_match_None:
  "first_match U r s = None \<Longrightarrow> k \<le> length s \<Longrightarrow> matches_at U r s k = []"
proof (induction s arbitrary: k)
  case Nil
  then show ?case by (simp add: first_match_Nil matches_at_0 split: if_splits)
next
  case (Cons c cs)
  from Cons.prems(1) have t: "rmatch U r (c # cs, None) = []" and n: "first_match U r cs = None"
    by (simp_all add: first_match_Cons split: if_splits)
  show ?case
  proof (cases k)
    case 0
    with t show ?thesis by (simp add: matches_at_0)
  next
    case (Suc k')
    with Cons.prems(2) have "k' \<le> length cs" by simp
    from Cons.IH[OF n this] Suc show ?thesis by (simp add: matches_at_Suc)
  qed
qed

lemma first_match_Some_iff:
  "first_match U r s = Some (k, g) \<longleftrightarrow>
     k \<le> length s \<and> matches_at U r s k \<noteq> [] \<and> (\<forall>j<k. matches_at U r s j = [])
     \<and> g = snd (hd (matches_at U r s k))"
proof
  assume "first_match U r s = Some (k, g)"
  then show "k \<le> length s \<and> matches_at U r s k \<noteq> [] \<and> (\<forall>j<k. matches_at U r s j = [])
     \<and> g = snd (hd (matches_at U r s k))" by (rule first_match_Some)
next
  assume a: "k \<le> length s \<and> matches_at U r s k \<noteq> [] \<and> (\<forall>j<k. matches_at U r s j = [])
     \<and> g = snd (hd (matches_at U r s k))"
  show "first_match U r s = Some (k, g)"
  proof (cases "first_match U r s")
    case None
    from first_match_None[OF None, of k] a show ?thesis by simp
  next
    case (Some kg)
    obtain k' g' where kg: "kg = (k', g')" by (cases kg)
    from first_match_Some[of U r s k' g'] Some kg
    have b: "matches_at U r s k' \<noteq> []" "\<forall>j<k'. matches_at U r s j = []"
      "g' = snd (hd (matches_at U r s k'))" by simp_all
    from a b(2) have "\<not> k < k'" by auto
    moreover from a b(1) have "\<not> k' < k" by auto
    ultimately have "k' = k" by simp
    with a b(3) Some kg show ?thesis by simp
  qed
qed

lemma first_match_None_iff:
  "first_match U r s = None \<longleftrightarrow> (\<forall>k\<le>length s. matches_at U r s k = [])"
proof
  assume "first_match U r s = None"
  then show "\<forall>k\<le>length s. matches_at U r s k = []" by (simp add: first_match_None)
next
  assume a: "\<forall>k\<le>length s. matches_at U r s k = []"
  show "first_match U r s = None"
  proof (cases "first_match U r s")
    case (Some kg)
    obtain k' g' where kg: "kg = (k', g')" by (cases kg)
    from first_match_Some[of U r s k' g'] Some kg
    have "k' \<le> length s" "matches_at U r s k' \<noteq> []" by simp_all
    with a show ?thesis by blast
  qed simp
qed

lemma dict_set_new: "k \<notin> fst ` set kvs \<Longrightarrow> dict_set kvs k v = kvs @ [(k, v)]"
  by (induction kvs) auto

lemma lab_results_loop_concat:
  "distinct (map fst ps) \<Longrightarrow> fst ` set acc \<inter> fst ` set ps = {} \<Longrightarrow>
   lab_results_loop U t ps acc
   = acc @ concat (map (\<lambda>(lab_name, pattern).
                     case first_match U pattern t of
                       None \<Rightarrow> []
                     | Some (k, g) \<Rightarrow>
                         [(lab_name, \<lparr>lab_value = g, lab_unit = get_default_unit lab_name\<rparr>)]) ps)"
proof (induction ps arbitrary: acc)
  case Nil
  show ?case by simp
next
  case (Cons np rest)
  obtain n p where np: "np = (n, p)" by (cases np)
  from Cons.prems np have d: "distinct (map fst rest)" and nr: "n \<notin> fst ` set rest"
    and na: "n \<notin> fst ` set acc" and dis: "fst ` set acc \<inter> fst ` set rest = {}"
    by auto
  show ?case
  proof (cases "first_match U p t")
    case None
    with Cons.IH[OF d dis] np show ?thesis by (simp add: re_search_first_match)
  next
    case (Some kg)
    obtain k g where kg: "kg = (k, g)" by (cases kg)
    let ?v = "\<lparr>lab_value = g, lab_unit = get_default_unit n\<rparr>"
    from nr dis have dis': "fst ` set (acc @ [(n, ?v)]) \<inter> fst ` set rest = {}" by auto
    from Cons.IH[OF d dis'] Some kg np na show ?thesis
      by (simp add: re_search_first_match dict_set_new)
  qed
qed

lemma lab_names: "map fst lab_patterns = [py ''hemoglobin'', py ''glucose'', py ''creatinine'', py ''wbc'']"
  by (simp add: lab_patterns_def)

lemma lab_names_distinct: "distinct (map fst lab_patterns)"
  unfolding lab_names by (simp add: py_def)

lemma extract_lab_results_concat:
  "extract_lab_results U txt
   = concat (map (\<lambda>(lab_name, pattern).
                     case first_match U pattern (lower U txt) of
                       None \<Rightarrow> []
                     | Some (k, g) \<Rightarrow>
                         [(lab_name, \<lparr>lab_value = g, lab_unit = get_default_unit lab_name\<rparr>)])
               lab_patterns)"
  unfolding extract_lab_results_def
  by (simp add: lab_results_loop_concat[OF lab_names_distinct])

lemma lab_pattern_shape:
  assumes "(n, p) \<in> set lab_patterns"
  shows "\<exists>names units. no_group names \<and> no_group units
           \<and> p = seqs [names, label_gap, number_group, Star (Class [CSpace]), units]"
proof -
  from assms consider
      "p = seqs [Alt (lit ''hemoglobin'') (Alt (lit ''hgb'') (lit ''hb'')), label_gap, number_group,
             Star (Class [CSpace]), Opt (Alt (lit ''g/dl'') (lit ''mg/dl''))]"
    | "p = seqs [Alt (lit ''glucose'') (lit ''blood sugar''), label_gap, number_group,
             Star (Class [CSpace]), Opt (lit ''mg/dl'')]"
    | "p = seqs [Alt (lit ''creatinine'') (lit ''cr''), label_gap, number_group,
             Star (Class [CSpace]), Opt (lit ''mg/dl'')]"
    | "p = seqs [Alt (lit ''wbc'') (lit ''white blood cell''), label_gap, number_group,
             Star (Class [CSpace]), Opt (lit ''k/ul'')]"
    unfolding lab_patterns_def by auto
  then show ?thesis
  proof cases
    case 1
    have "no_group (Alt (lit ''hemoglobin'') (Alt (lit ''hgb'') (lit ''hb'')))
          \<and> no_group (Opt (Alt (lit ''g/dl'') (lit ''mg/dl''))) \<and> p = p"
      by (simp add: no_group_lit Opt_def)
    then show ?thesis unfolding 1 by (intro exI)
  next
    case 2
    have "no_group (Alt (lit ''glucose'') (lit ''blood sugar''))
          \<and> no_group (Opt (lit ''mg/dl'')) \<and> p = p"
      by (simp add: no_group_lit Opt_def)
    then show ?thesis unfolding 2 by (intro exI)
  next
    case 3
    have "no_group (Alt (lit ''creatinine'') (lit ''cr''))
          \<and> no_group (Opt (lit ''mg/dl'')) \<and> p = p"
      by (simp add: no_group_lit Opt_def)
    then show ?thesis unfolding 3 by (intro exI)
  next
    case 4
    have "no_group (Alt (lit ''wbc'') (lit ''white blood cell''))
          \<and> no_group (Opt (lit ''k/ul'')) \<and> p = p"
      by (simp add: no_group_lit Opt_def)
    then show ?thesis unfolding 4 by (intro exI)
  qed
qed

lemma lab_value_numeric:
  assumes p: "(n, p) \<in> set lab_patterns" and f: "first_match U p s = Some (k, g)"
  shows "\<exists>a d b. g = Some (a @ d @ b) \<and> a \<noteq> [] \<and> list_all (isdecimal U) a
           \<and> (d = [] \<or> (\<exists>c. d = [c] \<and> ci_match U 46 c)) \<and> list_all (isdecimal U) b"
proof -
  from lab_pattern_shape[OF p] obtain names units where n: "no_group names" "no_group units"
    and pe: "p = seqs [names, label_gap, number_group, Star (Class [CSpace]), units]"
    by (elim exE conjE)
  from first_match_Some[OF f] have ne: "matches_at U p s k \<noteq> []"
    and g: "g = snd (hd (matches_at U p s k))" by simp_all
  from ne have "hd (matches_at U p s k) \<in> set (matches_at U p s k)" by (rule hd_in_set)
  then have "(fst (hd (matches_at U p s k)), g)
             \<in> set (rmatch U (seqs [names, label_gap,
                         Group (seqs [Plus (Class [CDigit]), Opt (Lit 46), Star (Class [CDigit])]),
                         Star (Class [CSpace]), units]) (drop k s, None))"
    unfolding g matches_at_def pe number_group_def by simp
  from lab_pattern_capture[OF n this] obtain v where v: "g = Some v"
    "accepts U (seqs [Plus (Class [CDigit]), Opt (Lit 46), Star (Class [CDigit])]) v"
    by (elim exE conjE)
  from accepts_number[OF v(2)] obtain a d b where "v = a @ d @ b" "a \<noteq> []"
    "list_all (isdecimal U) a" "d = [] \<or> (\<exists>c. d = [c] \<and> ci_match U 46 c)"
    "list_all (isdecimal U) b" by (elim exE conjE)
  with v(1) have "g = Some (a @ d @ b) \<and> a \<noteq> [] \<and> list_all (isdecimal U) a
           \<and> (d = [] \<or> (\<exists>c. d = [c] \<and> ci_match U 46 c)) \<and> list_all (isdecimal U) b"
    by simp
  then show ?thesis by (intro exI)
qed

section \<open>Lemmas on the summaries module\<close>

lemma summaries_indentation: "indentation_error [0] False summaries_py_lines = Some 20"
  by (simp add: summaries_py_lines_def)

lemma compile_summaries_fails: "compile_summaries = Some (IndentationError 20)"
  by (simp add: compile_summaries_def summaries_indentation)

section \<open>Properties of the extraction capability and the document state machine\<close>

text \<open>
  C8. For every file locator and every declared kind whose lower case is none of pdf, jpg,
  jpeg, png, tiff, bmp, \<open>extract_text_from_file\<close> raises the unsupported-type
  \<^verbatim>\<open>ValueError\<close> and performs no I/O: the list of I/O events of the call is empty, so
  no byte of the file is read.
\<close>

theorem unsupported_kind_fails_before_io:
  assumes "lower U kind \<notin> set [py ''pdf'', py ''jpg'', py ''jpeg'', py ''png'', py ''tiff'', py ''bmp'']"
  shows "extract_text_from_file U env locator kind
         = (Inl (ValueError (py ''Unsupported file type: '' @ lower U kind)), [])"
  using assms by (simp add: extract_text_from_file_def supported_image_types_def Let_def)

text \<open>The witness: the declared kind \<^verbatim>\<open>TXT\<close>, in any environment.\<close>

theorem unsupported_kind_fails_before_io_witness:
  "\<forall>U (env :: unit ocr_env) locator.
     extract_text_from_file U env locator (py ''TXT'')
       = (Inl (ValueError (py ''Unsupported file type: txt'')), [])"
proof (intro allI)
  fix U :: unicode_db and env :: "unit ocr_env" and locator :: pystr
  have low: "lower U (py ''TXT'') = py ''txt''"
    by (simp add: lower_def is_ascii_def ascii_lower_def py_def)
  have "lower U (py ''TXT'') \<notin> set [py ''pdf'', py ''jpg'', py ''jpeg'', py ''png'', py ''tiff'', py ''bmp'']"
    unfolding low by (simp add: py_def)
  from unsupported_kind_fails_before_io[OF this, of env locator]
  show "extract_text_from_file U env locator (py ''TXT'')
       = (Inl (ValueError (py ''Unsupported file type: txt'')), [])"
    unfolding low by (simp add: py_def)
qed

text \<open>
  C3, as amended. For every document present in the store, a call of
  \<open>process_document_background\<close> leaves the document in a status other than processing;
  and if the extraction raises, for whatever reason, the final write sets the status to
  failed and stores the text of the exception as the error detail, and the extracted text
  is left as it was before the call: null when it was null, as it is for a document that
  was never processed.
\<close>

theorem process_failure_recorded:
  assumes "get_document db document_id = Some d"
  shows "\<exists>d'. get_document (after_process U env document_id db) document_id = Some d'
           \<and> processing_status d' \<noteq> Processing
           \<and> (\<forall>e. document_extraction U env d = Inl e \<longrightarrow>
                  processing_status d' = Failed
                  \<and> error_message d' = Some (str_exception e)
                  \<and> ocr_text d' = ocr_text d)"
proof -
  have "get_document (after_process U env document_id db) document_id = Some (document_after U env d)"
    by (rule after_process_document[OF assms])
  moreover have "processing_status (document_after U env d) \<noteq> Processing"
    using document_after_status[of U env d] by auto
  moreover have "\<forall>e. document_extraction U env d = Inl e \<longrightarrow>
                  processing_status (document_after U env d) = Failed
                  \<and> error_message (document_after U env d) = Some (str_exception e)
                  \<and> ocr_text (document_after U env d) = ocr_text d"
    by (simp add: document_after_def)
  ultimately show ?thesis by blast
qed

text \<open>The witness: a freshly uploaded scan that cannot be opened.\<close>

theorem process_failure_recorded_witness:
  "\<exists>d'. get_document (after_process example_unicode failing_env 4 scan_db) 4 = Some d'
           \<and> processing_status d' = Failed
           \<and> error_message d' = Some (py ''cannot identify image file'')
           \<and> ocr_text d' = None"
proof -
  have ex: "document_extraction example_unicode failing_env scan_document
            = Inl (LibraryError (py ''cannot identify image file''))"
    by (rule scan_extraction_fails[OF scan_document_name])
  from process_failure_recorded[OF get_scan, of example_unicode failing_env] ex
  show ?thesis by (auto simp: scan_document_def)
qed

text \<open>
  The claim as stated, that a failed extraction leaves the extracted text null for every
  document of the store, fails for a document that was processed before: the scan is
  read in a first call; in a second call the file cannot be opened, the extraction
  raises, the status becomes failed, and the text of the first call is still stored.
\<close>

theorem failed_rerun_keeps_text:
  "document_extraction example_unicode failing_env
     (document_after example_unicode reading_env scan_document)
     = Inl (LibraryError (py ''cannot identify image file''))
   \<and> (\<exists>d'. get_document
              (after_process example_unicode failing_env 4
                 (after_process example_unicode reading_env 4 scan_db)) 4 = Some d'
          \<and> processing_status d' = Failed
          \<and> ocr_text d' = Some (py ''Hb 9.2'')
          \<and> ocr_text d' \<noteq> None)"
proof -
  let ?U = example_unicode
  let ?d1 = "document_after ?U reading_env scan_document"
  have a1: "get_document (after_process ?U reading_env 4 scan_db) 4 = Some ?d1"
    by (rule after_process_document[OF get_scan])
  have n1: "file_name ?d1 = py ''scan.png''"
    by (simp add: document_after_file_name scan_document_name)
  have e2: "document_extraction ?U failing_env ?d1
            = Inl (LibraryError (py ''cannot identify image file''))"
    by (rule scan_extraction_fails[OF n1])
  have a2: "get_document (after_process ?U failing_env 4 (after_process ?U reading_env 4 scan_db)) 4
            = Some (document_after ?U failing_env ?d1)"
    by (rule after_process_document[OF a1])
  have "processing_status (document_after ?U failing_env ?d1) = Failed"
    and "ocr_text (document_after ?U failing_env ?d1) = Some (py ''Hb 9.2'')"
    unfolding document_after_Inl[OF e2] by (simp_all add: after_reading_scan)
  with a2 e2 show ?thesis by simp
qed

text \<open>
  C5, as amended. For every document present in the store, after a call of
  \<open>process_document_background\<close>: a successful extraction sets the extracted text and
  the status completed, and leaves the error detail as it was (it is not cleared); and
  for a document whose error detail and extracted text are both null before the call, as
  upload creates it, the error detail is non-null iff the status is failed, and the
  extracted text is non-null iff the status is completed.
\<close>

theorem process_outcome_invariant:
  assumes "get_document db document_id = Some d"
  shows "\<exists>d'. get_document (after_process U env document_id db) document_id = Some d'
           \<and> (\<forall>t. document_extraction U env d = Inr t \<longrightarrow>
                  ocr_text d' = Some t \<and> processing_status d' = Completed
                  \<and> error_message d' = error_message d)
           \<and> (error_message d = None \<and> ocr_text d = None \<longrightarrow>
                  ((error_message d' \<noteq> None) = (processing_status d' = Failed))
                  \<and> ((ocr_text d' \<noteq> None) = (processing_status d' = Completed)))"
proof -
  let ?d' = "document_after U env d"
  have "get_document (after_process U env document_id db) document_id = Some ?d'"
    by (rule after_process_document[OF assms])
  moreover have "\<forall>t. document_extraction U env d = Inr t \<longrightarrow>
                  ocr_text ?d' = Some t \<and> processing_status ?d' = Completed
                  \<and> error_message ?d' = error_message d"
    by (simp add: document_after_def)
  moreover have "error_message d = None \<and> ocr_text d = None \<longrightarrow>
                  ((error_message ?d' \<noteq> None) = (processing_status ?d' = Failed))
                  \<and> ((ocr_text ?d' \<noteq> None) = (processing_status ?d' = Completed))"
    by (simp add: document_after_def split: sum.splits)
  ultimately show ?thesis by blast
qed

text \<open>The witness: a freshly uploaded scan that is read.\<close>

theorem process_outcome_invariant_witness:
  "\<exists>d'. get_document (after_process example_unicode reading_env 4 scan_db) 4 = Some d'
         \<and> ocr_text d' = Some (py ''Hb 9.2'') \<and> processing_status d' = Completed
         \<and> error_message d' = None"
proof -
  have ex: "document_extraction example_unicode reading_env scan_document = Inr (py ''Hb 9.2'')"
    by (rule scan_extraction_reads[OF scan_document_name])
  from process_outcome_invariant[OF get_scan, of example_unicode reading_env] ex
  show ?thesis by (auto simp: scan_document_def)
qed

text \<open>
  The claim as stated fails on a retry after a failure: the first call cannot open the
  file and stores an error detail; the second call reads the file and sets the status
  completed, and the error detail of the first call is still stored.
\<close>

theorem retry_keeps_error_detail:
  "\<exists>d'. get_document
           (after_process example_unicode reading_env 4
              (after_process example_unicode failing_env 4 scan_db)) 4 = Some d'
        \<and> processing_status d' = Completed
        \<and> ocr_text d' = Some (py ''Hb 9.2'')
        \<and> error_message d' = Some (py ''cannot identify image file'')
        \<and> \<not> ((error_message d' \<noteq> None) = (processing_status d' = Failed))"
proof -
  let ?U = example_unicode
  let ?d1 = "document_after ?U failing_env scan_document"
  have a1: "get_document (after_process ?U failing_env 4 scan_db) 4 = Some ?d1"
    by (rule after_process_document[OF get_scan])
  have n1: "file_name ?d1 = py ''scan.png''"
    by (simp add: document_after_file_name scan_document_name)
  have e2: "document_extraction ?U reading_env ?d1 = Inr (py ''Hb 9.2'')"
    by (rule scan_extraction_reads[OF n1])
  have a2: "get_document (after_process ?U reading_env 4 (after_process ?U failing_env 4 scan_db)) 4
            = Some (document_after ?U reading_env ?d1)"
    by (rule after_process_document[OF a1])
  have "processing_status (document_after ?U reading_env ?d1) = Completed"
    and "ocr_text (document_after ?U reading_env ?d1) = Some (py ''Hb 9.2'')"
    and "error_message (document_after ?U reading_env ?d1) = Some (py ''cannot identify image file'')"
    unfolding document_after_Inr[OF e2] by (simp_all add: after_failing_scan)
  with a2 show ?thesis by simp
qed

text \<open>
  C4, as amended. \<open>process_document_background\<close> does not look at the status it finds.
  For every document present in the store, one call commits the status processing and
  then completed or failed, whatever the status was before; so over every sequence of
  calls each transition is either into processing, from any status (the terminal ones
  included), or from processing to completed or failed. For a document in status pending,
  one call follows pending, processing, completed or pending, processing, failed.
\<close>

theorem process_status_transitions:
  assumes "get_document db document_id = Some d"
  shows "all_steps code_step (map (status_in document_id) (db # process_runs U envs document_id db))
         \<and> (\<exists>t. (t = Completed \<or> t = Failed)
               \<and> map (status_in document_id) (db # process_document_background U env document_id db)
                 = [Some (processing_status d), Some Processing, Some t])
         \<and> (processing_status d = Pending \<longrightarrow>
               all_steps spec_step
                 (map (status_in document_id) (db # process_document_background U env document_id db)))"
proof (intro conjI)
  let ?t = "processing_status (document_after U env d)"
  have s0: "status_in document_id db = Some (processing_status d)"
    by (simp add: status_in_def assms)
  have t: "?t = Completed \<or> ?t = Failed"
    by (rule document_after_status)
  have run: "map (status_in document_id) (db # process_document_background U env document_id db)
             = [Some (processing_status d), Some Processing, Some ?t]"
    by (simp add: s0 process_statuses[OF assms])
  show "all_steps code_step (map (status_in document_id) (db # process_runs U envs document_id db))"
    using process_runs_steps[OF assms, of U envs] by (simp only: list.map)
  show "\<exists>t. (t = Completed \<or> t = Failed)
               \<and> map (status_in document_id) (db # process_document_background U env document_id db)
                 = [Some (processing_status d), Some Processing, Some t]"
    by (rule exI[of _ ?t]) (rule conjI[OF t run])
  show "processing_status d = Pending \<longrightarrow>
               all_steps spec_step
                 (map (status_in document_id) (db # process_document_background U env document_id db))"
  proof
    assume p: "processing_status d = Pending"
    from t show "all_steps spec_step
                 (map (status_in document_id) (db # process_document_background U env document_id db))"
      unfolding run p by (elim disjE) simp_all
  qed
qed

text \<open>The witness: two calls on a scan that cannot be opened, and one call that reads it.\<close>

theorem process_status_transitions_witness:
  "all_steps code_step
     (map (status_in 4) (scan_db # process_runs example_unicode [failing_env, failing_env] 4 scan_db))
   \<and> all_steps spec_step
       (map (status_in 4) (scan_db # process_document_background example_unicode reading_env 4 scan_db))"
  using process_status_transitions[OF get_scan, of example_unicode "[failing_env, failing_env]" reading_env]
  by (simp add: scan_document_def)

text \<open>
  The claim as stated fails on a second call: the first call ends in the terminal status
  failed, and the second moves the document out of it, to processing.
\<close>

theorem rerun_leaves_terminal_state:
  "map (status_in 4) (scan_db # process_runs example_unicode [failing_env, failing_env] 4 scan_db)
     = [Some Pending, Some Processing, Some Failed, Some Processing, Some Failed]
   \<and> \<not> all_steps spec_step
         (map (status_in 4)
            (scan_db # process_runs example_unicode [failing_env, failing_env] 4 scan_db))"
  unfolding scan_two_failing_runs by simp

text \<open>
  C10. For every uploaded file whose name ends in \<^verbatim>\<open>.doc\<close> or \<^verbatim>\<open>.docx\<close> the extension
  passes the allow-list of \<open>upload_document\<close>. The upload then creates no record: for an
  existing patient and a size within the limit it raises what \<open>save_file\<close> raises, and
  \<open>save_file\<close> always raises, since it awaits the bytes that the synchronous stream
  returns; \<open>upload_document\<close> never returns a document. For every document of the store
  with such a name, the extraction raises the unsupported-type \<^verbatim>\<open>ValueError\<close> in every
  environment, no run of \<open>process_document_background\<close> writes the status completed, and
  every run ends with the document in status failed.
\<close>

theorem word_upload_raises_and_never_completes:
  assumes "filename file = base @ py ''.doc'' \<or> filename file = base @ py ''.docx''"
  shows "lower U (last (py_split (of_char CHR ''.'') (filename file))) \<in> set allowed_extensions
         \<and> (find (\<lambda>p. pat_id p = patient_id) (patients db) \<noteq> None
              \<and> file_bytes file \<le> max_upload_size \<longrightarrow>
              (\<exists>e. upload_document U max_upload_size storage new_id patient_id current_user
                      file db = Inl (Raised e)))
         \<and> (\<forall>doc db1.
               upload_document U max_upload_size storage new_id patient_id current_user file db
               \<noteq> Inr (doc, db1))
         \<and> (\<forall>db0 document_id d.
               get_document db0 document_id = Some d \<and> file_name d = filename file \<longrightarrow>
               (\<forall>env :: 'img ocr_env.
                  document_extraction U env d
                  = Inl (ValueError
                           (py ''Unsupported file type: ''
                              @ lower U (last (py_split (of_char CHR ''.'') (filename file))))))
               \<and> (\<forall>envs :: 'img ocr_env list.
                     Some Completed
                       \<notin> set (map (status_in document_id) (process_runs U envs document_id db0))
                     \<and> (envs \<noteq> [] \<longrightarrow>
                           status_in document_id
                             (last (db0 # process_runs U envs document_id db0))
                           = Some Failed)))"
proof (intro conjI allI impI)
  show acc: "lower U (last (py_split (of_char CHR ''.'') (filename file))) \<in> set allowed_extensions"
    using word_extension[OF assms, of U] by (auto simp: allowed_extensions_def)
  show "\<exists>e. upload_document U max_upload_size storage new_id patient_id current_user
                      file db = Inl (Raised e)"
    if "find (\<lambda>p. pat_id p = patient_id) (patients db) \<noteq> None
        \<and> file_bytes file \<le> max_upload_size"
    using that acc by (intro upload_document_raises) auto
  show "upload_document U max_upload_size storage new_id patient_id current_user file db
        \<noteq> Inr (doc, db1)" for doc db1
    by (rule upload_document_no_record)
  fix db0 document_id d
  assume h: "get_document db0 document_id = Some d \<and> file_name d = filename file"
  then have g: "get_document db0 document_id = Some d" by simp
  have n: "file_name d = base @ py ''.doc'' \<or> file_name d = base @ py ''.docx''"
    using h assms by simp
  show "document_extraction U env d
        = Inl (ValueError
                 (py ''Unsupported file type: ''
                    @ lower U (last (py_split (of_char CHR ''.'') (filename file)))))"
    for env :: "'img ocr_env"
    unfolding document_extraction_def
    using word_type_unsupported[OF word_extension[OF assms, of U], of U env "file_path d"] h
    by simp
  fix envs :: "'img ocr_env list"
  show "Some Completed \<notin> set (map (status_in document_id) (process_runs U envs document_id db0))"
    using word_runs[OF g n, of U envs] by simp
  assume "envs \<noteq> []"
  then show "status_in document_id (last (db0 # process_runs U envs document_id db0))
             = Some Failed"
    using word_runs[OF g n, of U envs] by simp
qed

text \<open>
  The witness: the file \<^verbatim>\<open>report.docx\<close>, uploaded for an existing patient to a file system
  that works, and a stored document of that name, processed once.
\<close>

theorem word_upload_raises_and_never_completes_witness:
  "(\<exists>e. upload_document example_unicode 10485760 working_storage 9 7 3 word_file empty_db
          = Inl (Raised e))
   \<and> status_in 9 (last (word_db # process_runs example_unicode [reading_env] 9 word_db))
     = Some Failed"
proof -
  have name: "filename word_file = py ''report'' @ py ''.doc''
              \<or> filename word_file = py ''report'' @ py ''.docx''"
    by (simp add: word_file_def py_def)
  note main = word_upload_raises_and_never_completes[OF name,
      of example_unicode 7 empty_db 10485760 working_storage 9 3]
  have pre: "find (\<lambda>p. pat_id p = 7) (patients empty_db) \<noteq> None
             \<and> file_bytes word_file \<le> 10485760"
    by (simp add: empty_db_def example_patient_def word_file_def)
  have a: "\<exists>e. upload_document example_unicode 10485760 working_storage 9 7 3 word_file empty_db
                = Inl (Raised e)"
    by (rule mp[OF conjunct1[OF conjunct2[OF main]] pre])
  have same: "get_document word_db 9 = Some word_document
              \<and> file_name word_document = filename word_file"
    by (simp add: get_word word_document_def word_file_def)
  have all: "\<forall>db0 document_id d.
               get_document db0 document_id = Some d \<and> file_name d = filename word_file \<longrightarrow>
               (\<forall>env :: unit ocr_env.
                  document_extraction example_unicode env d
                  = Inl (ValueError
                           (py ''Unsupported file type: ''
                              @ lower example_unicode
                                  (last (py_split (of_char CHR ''.'') (filename word_file))))))
               \<and> (\<forall>envs :: unit ocr_env list.
                     Some Completed
                       \<notin> set (map (status_in document_id)
                                (process_runs example_unicode envs document_id db0))
                     \<and> (envs \<noteq> [] \<longrightarrow>
                           status_in document_id
                             (last (db0 # process_runs example_unicode envs document_id db0))
                           = Some Failed))"
    by (rule conjunct2[OF conjunct2[OF conjunct2[OF main]]])
  from all same have "\<forall>envs :: unit ocr_env list.
                     Some Completed
                       \<notin> set (map (status_in 9) (process_runs example_unicode envs 9 word_db))
                     \<and> (envs \<noteq> [] \<longrightarrow>
                           status_in 9 (last (word_db # process_runs example_unicode envs 9 word_db))
                           = Some Failed)"
    by blast
  then have b: "status_in 9 (last (word_db # process_runs example_unicode [reading_env] 9 word_db))
                = Some Failed"
    by blast
  from a b show ?thesis by (rule conjI)
qed

section \<open>Properties of the summarization service\<close>

text \<open>
  C7. For every text, lab-result extraction returns, in the order hemoglobin, glucose,
  creatinine, wbc, one entry for each test whose pattern matches somewhere in the
  lowercased text, and none for a test whose pattern matches nowhere. The value of the
  entry is group 1 of the first match of the pattern: the match at the lowest position
  where the pattern matches at all. For the four patterns this value is always a numeral:
  one or more digits, then at most one dot, then digits. The unit of the entry is the
  canonical unit of the test (g/dL, mg/dL, mg/dL, K/\<mu>L), whatever unit the text gives or
  omits. Applied to \<^verbatim>\<open>Hemoglobin: 9.2 g/dl, Glucose 110\<close> the extraction returns exactly
  hemoglobin with value 9.2 and unit g/dL and glucose with value 110 and unit mg/dL.
  Where a test occurs twice the first occurrence gives the value
  (\<^verbatim>\<open>Hb 9.2, Hgb 10.1\<close> gives 9.2), and \<^verbatim>\<open>Hemoglobin 9200 mg/dl\<close> gives the value 9200 with
  the unit g/dL.
\<close>

theorem lab_results_first_match:
  "extract_lab_results U txt
   = concat (map (\<lambda>(lab_name, pattern).
                    case first_match U pattern (lower U txt) of
                      None \<Rightarrow> []
                    | Some (k, g) \<Rightarrow>
                        [(lab_name, \<lparr>lab_value = g, lab_unit = get_default_unit lab_name\<rparr>)])
               lab_patterns)
   \<and> (\<forall>r s k g. first_match U r s = Some (k, g) \<longleftrightarrow>
          k \<le> length s \<and> matches_at U r s k \<noteq> [] \<and> (\<forall>j<k. matches_at U r s j = [])
          \<and> g = snd (hd (matches_at U r s k)))
   \<and> (\<forall>r s. first_match U r s = None \<longleftrightarrow> (\<forall>k\<le>length s. matches_at U r s k = []))
   \<and> (\<forall>lab_name pattern s k g.
          (lab_name, pattern) \<in> set lab_patterns \<and> first_match U pattern s = Some (k, g) \<longrightarrow>
          (\<exists>a d b. g = Some (a @ d @ b) \<and> a \<noteq> [] \<and> list_all (isdecimal U) a
             \<and> (d = [] \<or> (\<exists>c. d = [c] \<and> ci_match U 46 c)) \<and> list_all (isdecimal U) b))
   \<and> map fst lab_patterns = [py ''hemoglobin'', py ''glucose'', py ''creatinine'', py ''wbc'']
   \<and> get_default_unit (py ''hemoglobin'') = py ''g/dL''
   \<and> get_default_unit (py ''glucose'') = py ''mg/dL''
   \<and> get_default_unit (py ''creatinine'') = py ''mg/dL''
   \<and> get_default_unit (py ''wbc'') = py ''K/'' @ [956] @ py ''L''
   \<and> extract_lab_results U (py ''Hemoglobin: 9.2 g/dl, Glucose 110'')
     = [(py ''hemoglobin'', \<lparr>lab_value = Some (py ''9.2''), lab_unit = py ''g/dL''\<rparr>),
        (py ''glucose'', \<lparr>lab_value = Some (py ''110''), lab_unit = py ''mg/dL''\<rparr>)]
   \<and> extract_lab_results U (py ''Hb 9.2, Hgb 10.1'')
     = [(py ''hemoglobin'', \<lparr>lab_value = Some (py ''9.2''), lab_unit = py ''g/dL''\<rparr>)]
   \<and> extract_lab_results U (py ''Glucose 110, Hb 9.2, Glucose 95 mg/dl'')
     = [(py ''hemoglobin'', \<lparr>lab_value = Some (py ''9.2''), lab_unit = py ''g/dL''\<rparr>),
        (py ''glucose'', \<lparr>lab_value = Some (py ''110''), lab_unit = py ''mg/dL''\<rparr>)]
   \<and> extract_lab_results U (py ''Hemoglobin 9200 mg/dl'')
     = [(py ''hemoglobin'', \<lparr>lab_value = Some (py ''9200''), lab_unit = py ''g/dL''\<rparr>)]
   \<and> extract_lab_results U (py ''No laboratory values'') = []"
proof (intro conjI allI impI)
  show "extract_lab_results U txt
   = concat (map (\<lambda>(lab_name, pattern).
                    case first_match U pattern (lower U txt) of
                      None \<Rightarrow> []
                    | Some (k, g) \<Rightarrow>
                        [(lab_name, \<lparr>lab_value = g, lab_unit = get_default_unit lab_name\<rparr>)])
               lab_patterns)"
    by (rule extract_lab_results_concat)
  show "first_match U r s = Some (k, g) \<longleftrightarrow>
          k \<le> length s \<and> matches_at U r s k \<noteq> [] \<and> (\<forall>j<k. matches_at U r s j = [])
          \<and> g = snd (hd (matches_at U r s k))" for r s k g
    by (rule first_match_Some_iff)
  show "first_match U r s = None \<longleftrightarrow> (\<forall>k\<le>length s. matches_at U r s k = [])" for r s
    by (rule first_match_None_iff)
  show "\<exists>a d b. g = Some (a @ d @ b) \<and> a \<noteq> [] \<and> list_all (isdecimal U) a
             \<and> (d = [] \<or> (\<exists>c. d = [c] \<and> ci_match U 46 c)) \<and> list_all (isdecimal U) b"
    if "(lab_name, pattern) \<in> set lab_patterns \<and> first_match U pattern s = Some (k, g)"
    for lab_name pattern s k g
    using that lab_value_numeric[of lab_name pattern U s k g] by simp
  show "map fst lab_patterns = [py ''hemoglobin'', py ''glucose'', py ''creatinine'', py ''wbc'']"
    by (rule lab_names)
  show "get_default_unit (py ''hemoglobin'') = py ''g/dL''"
    by (simp add: get_default_unit_def py_def)
  show "get_default_unit (py ''glucose'') = py ''mg/dL''"
    by (simp add: get_default_unit_def py_def)
  show "get_default_unit (py ''creatinine'') = py ''mg/dL''"
    by (simp add: get_default_unit_def py_def)
  show "get_default_unit (py ''wbc'') = py ''K/'' @ [956] @ py ''L''"
    by (simp add: get_default_unit_def py_def)
  show "extract_lab_results U (py ''Hemoglobin: 9.2 g/dl, Glucose 110'')
     = [(py ''hemoglobin'', \<lparr>lab_value = Some (py ''9.2''), lab_unit = py ''g/dL''\<rparr>),
        (py ''glucose'', \<lparr>lab_value = Some (py ''110''), lab_unit = py ''mg/dL''\<rparr>)]"
    by (simp add: extract_lab_results_def lab_patterns_def py_def lower_def is_ascii_def
        ascii_lower_def seqs_def lit_def Plus_def Opt_def number_group_def label_gap_def
        ci_match_def isspace_def isdecimal_def get_default_unit_def)
  show "extract_lab_results U (py ''Hb 9.2, Hgb 10.1'')
     = [(py ''hemoglobin'', \<lparr>lab_value = Some (py ''9.2''), lab_unit = py ''g/dL''\<rparr>)]"
    by (simp add: extract_lab_results_def lab_patterns_def py_def lower_def is_ascii_def
        ascii_lower_def seqs_def lit_def Plus_def Opt_def number_group_def label_gap_def
        ci_match_def isspace_def isdecimal_def get_default_unit_def)
  show "extract_lab_results U (py ''Glucose 110, Hb 9.2, Glucose 95 mg/dl'')
     = [(py ''hemoglobin'', \<lparr>lab_value = Some (py ''9.2''), lab_unit = py ''g/dL''\<rparr>),
        (py ''glucose'', \<lparr>lab_value = Some (py ''110''), lab_unit = py ''mg/dL''\<rparr>)]"
    by (simp add: extract_lab_results_def lab_patterns_def py_def lower_def is_ascii_def
        ascii_lower_def seqs_def lit_def Plus_def Opt_def number_group_def label_gap_def
        ci_match_def isspace_def isdecimal_def get_default_unit_def)
  show "extract_lab_results U (py ''Hemoglobin 9200 mg/dl'')
     = [(py ''hemoglobin'', \<lparr>lab_value = Some (py ''9200''), lab_unit = py ''g/dL''\<rparr>)]"
    by (simp add: extract_lab_results_def lab_patterns_def py_def lower_def is_ascii_def
        ascii_lower_def seqs_def lit_def Plus_def Opt_def number_group_def label_gap_def
        ci_match_def isspace_def isdecimal_def get_default_unit_def)
  show "extract_lab_results U (py ''No laboratory values'') = []"
    by (simp add: extract_lab_results_def lab_patterns_def py_def lower_def is_ascii_def
        ascii_lower_def seqs_def lit_def Plus_def Opt_def number_group_def label_gap_def
        ci_match_def isspace_def isdecimal_def get_default_unit_def)
qed

text \<open>
  The witness: the alias \<^verbatim>\<open>hgb\<close> at position 0 is followed by no number, so the first match
  of the hemoglobin pattern is at position 9.
\<close>

theorem lab_results_first_match_witness:
  "first_match example_unicode (snd (hd lab_patterns)) (py ''hgb n/a, hb 9.2'')
     = Some (9, Some (py ''9.2''))
   \<and> matches_at example_unicode (snd (hd lab_patterns)) (py ''hgb n/a, hb 9.2'') 0 = []
   \<and> matches_at example_unicode (snd (hd lab_patterns)) (py ''hgb n/a, hb 9.2'') 9 \<noteq> []
   \<and> (\<exists>a d b. Some (py ''9.2'') = Some (a @ d @ b) \<and> a \<noteq> []
         \<and> list_all (isdecimal example_unicode) a
         \<and> (d = [] \<or> (\<exists>c. d = [c] \<and> ci_match example_unicode 46 c))
         \<and> list_all (isdecimal example_unicode) b)
   \<and> extract_lab_results example_unicode (py ''Hgb n/a, Hb 9.2'')
     = [(py ''hemoglobin'', \<lparr>lab_value = Some (py ''9.2''), lab_unit = py ''g/dL''\<rparr>)]"
proof -
  let ?p = "snd (hd lab_patterns)"
  let ?s = "py ''hgb n/a, hb 9.2''"
  note main = lab_results_first_match[of example_unicode "py ''Hgb n/a, Hb 9.2''"]
  have low: "lower example_unicode (py ''Hgb n/a, Hb 9.2'') = ?s"
    by (simp add: lower_def is_ascii_def ascii_lower_def py_def)
  have fm: "first_match example_unicode ?p ?s = Some (9, Some (py ''9.2''))"
    by (simp add: first_match_Cons first_match_Nil lab_patterns_def py_def seqs_def lit_def
          Plus_def Opt_def number_group_def label_gap_def ci_match_def isspace_def
          isdecimal_def ascii_lower_def)
  have others: "\<forall>np \<in> set (tl lab_patterns). first_match example_unicode (snd np) ?s = None"
    by (simp add: first_match_Cons first_match_Nil lab_patterns_def py_def seqs_def lit_def
          Plus_def Opt_def number_group_def label_gap_def ci_match_def isspace_def
          isdecimal_def ascii_lower_def)
  have mem: "(fst (hd lab_patterns), ?p) \<in> set lab_patterns"
    by (simp add: lab_patterns_def)
  from main fm have least: "matches_at example_unicode ?p ?s 9 \<noteq> []
      \<and> (\<forall>j<9. matches_at example_unicode ?p ?s j = [])"
    by simp
  then have "matches_at example_unicode ?p ?s 0 = []" by simp
  moreover from main mem fm have "\<exists>a d b. Some (py ''9.2'') = Some (a @ d @ b) \<and> a \<noteq> []
         \<and> list_all (isdecimal example_unicode) a
         \<and> (d = [] \<or> (\<exists>c. d = [c] \<and> ci_match example_unicode 46 c))
         \<and> list_all (isdecimal example_unicode) b"
    by blast
  moreover have "extract_lab_results example_unicode (py ''Hgb n/a, Hb 9.2'')
     = [(py ''hemoglobin'', \<lparr>lab_value = Some (py ''9.2''), lab_unit = py ''g/dL''\<rparr>)]"
  proof -
    have l: "lab_patterns = (py ''hemoglobin'', ?p) # tl lab_patterns"
      by (simp add: lab_patterns_def)
    have u: "get_default_unit (py ''hemoglobin'') = py ''g/dL''"
      by (simp add: get_default_unit_def py_def)
    have z: "concat (map (\<lambda>(lab_name, pattern).
                    case first_match example_unicode pattern ?s of
                      None \<Rightarrow> []
                    | Some (k, g) \<Rightarrow>
                        [(lab_name, \<lparr>lab_value = g, lab_unit = get_default_unit lab_name\<rparr>)])
               (tl lab_patterns)) = []"
      using others by (auto split: prod.splits)
    from main have "extract_lab_results example_unicode (py ''Hgb n/a, Hb 9.2'')
      = concat (map (\<lambda>(lab_name, pattern).
                    case first_match example_unicode pattern ?s of
                      None \<Rightarrow> []
                    | Some (k, g) \<Rightarrow>
                        [(lab_name, \<lparr>lab_value = g, lab_unit = get_default_unit lab_name\<rparr>)])
               lab_patterns)"
      unfolding low by (rule conjunct1)
    also have "\<dots> = [(py ''hemoglobin'', \<lparr>lab_value = Some (py ''9.2''), lab_unit = py ''g/dL''\<rparr>)]"
      by (subst l) (simp only: list.map concat.simps prod.case fm option.case z u append_Nil2)
    finally show ?thesis .
  qed
  ultimately show ?thesis using fm least by simp
qed

text \<open>
  C9. For every date-of-birth input, \<open>calculate_age\<close> returns a string and raises
  nothing. An absent date of birth (\<^verbatim>\<open>None\<close> or the empty string) and a string that
  \<^verbatim>\<open>fromisoformat\<close> rejects give \<^verbatim>\<open>Unknown\<close>; a string it reads gives the age of the date
  read; and for a date the age is the difference of the calendar years, less one when
  today's (month, day) precedes the (month, day) of birth. A date of birth 2000-06-15,
  as a \<^verbatim>\<open>datetime\<close> or as a string, gives 23 on 2024-06-14 and 24 on 2024-06-15.
\<close>

theorem calculate_age_never_raises:
  "(\<exists>s. calculate_age other today dob = Inr s)
   \<and> calculate_age other today DobNone = Inr (py ''Unknown'')
   \<and> calculate_age other today (DobStr []) = Inr (py ''Unknown'')
   \<and> (\<forall>s e. fromisoformat other (py_replace (py ''Z'') (py ''+00:00'') s) = Inl e \<longrightarrow>
          calculate_age other today (DobStr s) = Inr (py ''Unknown''))
   \<and> (\<forall>s d. s \<noteq> [] \<and> fromisoformat other (py_replace (py ''Z'') (py ''+00:00'') s) = Inr d \<longrightarrow>
          calculate_age other today (DobStr s) = calculate_age other today (DobDatetime d))
   \<and> (\<forall>d. calculate_age other today (DobDatetime d)
          = Inr (str_int (year today - year d
                   - (if month today < month d \<or> (month today = month d \<and> day today < day d)
                      then 1 else 0))))
   \<and> calculate_age other \<lparr>year = 2024, month = 6, day = 14\<rparr>
         (DobDatetime \<lparr>year = 2000, month = 6, day = 15\<rparr>) = Inr (py ''23'')
   \<and> calculate_age other \<lparr>year = 2024, month = 6, day = 15\<rparr>
         (DobDatetime \<lparr>year = 2000, month = 6, day = 15\<rparr>) = Inr (py ''24'')
   \<and> calculate_age other \<lparr>year = 2024, month = 6, day = 14\<rparr> (DobStr (py ''2000-06-15''))
       = Inr (py ''23'')
   \<and> calculate_age other \<lparr>year = 2024, month = 6, day = 15\<rparr> (DobStr (py ''2000-06-15''))
       = Inr (py ''24'')"
proof (intro conjI allI impI)
  show "\<exists>s. calculate_age other today dob = Inr s"
    by (rule calculate_age_returns)
  show "calculate_age other today DobNone = Inr (py ''Unknown'')"
    by (simp add: calculate_age_def)
  show "calculate_age other today (DobStr []) = Inr (py ''Unknown'')"
    by (simp add: calculate_age_def)
  show "calculate_age other today (DobStr s) = Inr (py ''Unknown'')"
    if "fromisoformat other (py_replace (py ''Z'') (py ''+00:00'') s) = Inl e" for s e
    using that by (simp add: calculate_age_str)
  show "calculate_age other today (DobStr s) = calculate_age other today (DobDatetime d)"
    if "s \<noteq> [] \<and> fromisoformat other (py_replace (py ''Z'') (py ''+00:00'') s) = Inr d" for s d
    using that by (simp add: calculate_age_str)
  show "calculate_age other today (DobDatetime d)
          = Inr (str_int (year today - year d
                   - (if month today < month d \<or> (month today = month d \<and> day today < day d)
                      then 1 else 0)))" for d
    by (rule calculate_age_datetime)
  show "calculate_age other \<lparr>year = 2024, month = 6, day = 14\<rparr>
         (DobDatetime \<lparr>year = 2000, month = 6, day = 15\<rparr>) = Inr (py ''23'')"
    by (simp add: calculate_age_datetime str_23)
  show "calculate_age other \<lparr>year = 2024, month = 6, day = 15\<rparr>
         (DobDatetime \<lparr>year = 2000, month = 6, day = 15\<rparr>) = Inr (py ''24'')"
    by (simp add: calculate_age_datetime str_23)
  have ne: "py ''2000-06-15'' \<noteq> []" by (simp add: py_def)
  show "calculate_age other \<lparr>year = 2024, month = 6, day = 14\<rparr> (DobStr (py ''2000-06-15''))
       = Inr (py ''23'')"
    by (simp add: calculate_age_str ne replace_date parse_date calculate_age_datetime str_23)
  show "calculate_age other \<lparr>year = 2024, month = 6, day = 15\<rparr> (DobStr (py ''2000-06-15''))
       = Inr (py ''24'')"
    by (simp add: calculate_age_str ne replace_date parse_date calculate_age_datetime str_23)
qed

text \<open>The witness: a string that is no ISO date, and one that is.\<close>

theorem calculate_age_never_raises_witness:
  "calculate_age no_other_format \<lparr>year = 2024, month = 6, day = 14\<rparr> (DobStr (py ''15 June 2000''))
     = Inr (py ''Unknown'')
   \<and> calculate_age no_other_format \<lparr>year = 2024, month = 6, day = 14\<rparr>
       (DobStr (py ''2000-06-15'')) = Inr (py ''23'')"
proof -
  have r: "py_replace (py ''Z'') (py ''+00:00'') (py ''15 June 2000'') = py ''15 June 2000''"
    by (simp add: py_replace_def py_def startswith_def)
  have f: "fromisoformat no_other_format (py_replace (py ''Z'') (py ''+00:00'') (py ''15 June 2000''))
           = Inl (ValueError (py ''Invalid isoformat string''))"
    unfolding r by (simp add: fromisoformat_def no_other_format_def py_def)
  note main = calculate_age_never_raises[of no_other_format "\<lparr>year = 2024, month = 6, day = 14\<rparr>" DobNone]
  from main f show ?thesis by blast
qed

text \<open>
  C6, as amended. Red-flag extraction returns the red flags of the lines of the generated
  summary, line by line in the order of the lines. A line containing the critical marker
  gives one red flag with severity and category critical and the finding equal to the line
  with the marker removed, stripped. A line containing neither marker gives nothing. A
  line containing the abnormal marker and not the critical one gives one red flag with
  severity medium, category abnormal and the finding equal to the line with the marker
  removed, stripped, iff the literal \<^verbatim>\<open>RED FLAG\<close>, compared case-sensitively, occurs within
  the 200 code points that precede the first occurrence of the text of the line in the
  summary, and nothing otherwise; the first occurrence exists and is the line itself
  unless the same text occurs earlier. So every line other than an abnormal line that
  repeats earlier text has the flags of \<open>amended_line_flags\<close>, where the 200 code points
  are those before the line.
\<close>

theorem red_flags_by_line:
  "\<exists>line_flags.
     extract_red_flags U summary_text
     = concat (map line_flags [0..<length (py_split 10 summary_text)])
     \<and> (\<forall>i<length (py_split 10 summary_text).
          (py_in critical_marker (py_split 10 summary_text ! i) \<longrightarrow>
             line_flags i = [critical_flag U (py_split 10 summary_text ! i)])
          \<and> (\<not> py_in critical_marker (py_split 10 summary_text ! i)
             \<and> \<not> py_in abnormal_marker (py_split 10 summary_text ! i) \<longrightarrow>
             line_flags i = [])
          \<and> (\<not> py_in critical_marker (py_split 10 summary_text ! i)
             \<and> py_in abnormal_marker (py_split 10 summary_text ! i) \<longrightarrow>
             (\<exists>k\<le>line_offset (py_split 10 summary_text) i.
                first_occurrence summary_text (py_split 10 summary_text ! i) k)
             \<and> (\<forall>k. first_occurrence summary_text (py_split 10 summary_text ! i) k \<longrightarrow>
                  line_flags i
                  = (if py_in (py ''RED FLAG'') (preceding_window summary_text k)
                     then [abnormal_flag U (py_split 10 summary_text ! i)] else [])))
          \<and> ((py_in abnormal_marker (py_split 10 summary_text ! i)
              \<and> \<not> py_in critical_marker (py_split 10 summary_text ! i)
              \<longrightarrow> first_at_own_position summary_text (py_split 10 summary_text) i) \<longrightarrow>
             line_flags i = amended_line_flags U summary_text (py_split 10 summary_text) i))"
proof -
  let ?ls = "py_split 10 summary_text"
  let ?f = "\<lambda>i. code_line_flags U summary_text (?ls ! i)"
  have "extract_red_flags U summary_text = concat (map (code_line_flags U summary_text) ?ls)"
    by (simp add: extract_red_flags_def red_flags_loop_flags)
  also have "map (code_line_flags U summary_text) ?ls = map ?f [0..<length ?ls]"
    by (rule map_by_index)
  finally have whole: "extract_red_flags U summary_text = concat (map ?f [0..<length ?ls])" .
  have each: "(py_in critical_marker (?ls ! i) \<longrightarrow> ?f i = [critical_flag U (?ls ! i)])
          \<and> (\<not> py_in critical_marker (?ls ! i) \<and> \<not> py_in abnormal_marker (?ls ! i) \<longrightarrow> ?f i = [])
          \<and> (\<not> py_in critical_marker (?ls ! i) \<and> py_in abnormal_marker (?ls ! i) \<longrightarrow>
             (\<exists>k\<le>line_offset ?ls i. first_occurrence summary_text (?ls ! i) k)
             \<and> (\<forall>k. first_occurrence summary_text (?ls ! i) k \<longrightarrow>
                  ?f i = (if py_in (py ''RED FLAG'') (preceding_window summary_text k)
                          then [abnormal_flag U (?ls ! i)] else [])))
          \<and> ((py_in abnormal_marker (?ls ! i) \<and> \<not> py_in critical_marker (?ls ! i)
              \<longrightarrow> first_at_own_position summary_text ?ls i) \<longrightarrow>
             ?f i = amended_line_flags U summary_text ?ls i)"
    if i: "i < length ?ls" for i
  proof (intro conjI impI allI)
    assume "py_in critical_marker (?ls ! i)"
    then show "?f i = [critical_flag U (?ls ! i)]" by (rule code_line_flags_critical)
  next
    assume "\<not> py_in critical_marker (?ls ! i) \<and> \<not> py_in abnormal_marker (?ls ! i)"
    then show "?f i = []" by (simp add: code_line_flags_none)
  next
    from line_at_own_offset[OF i]
    show "\<exists>k\<le>line_offset ?ls i. first_occurrence summary_text (?ls ! i) k"
      by (intro first_occurrence_exists) simp_all
  next
    fix k
    assume "\<not> py_in critical_marker (?ls ! i) \<and> py_in abnormal_marker (?ls ! i)"
      and "first_occurrence summary_text (?ls ! i) k"
    then show "?f i = (if py_in (py ''RED FLAG'') (preceding_window summary_text k)
                          then [abnormal_flag U (?ls ! i)] else [])"
      by (simp add: code_line_flags_abnormal)
  next
    assume "py_in abnormal_marker (?ls ! i) \<and> \<not> py_in critical_marker (?ls ! i)
              \<longrightarrow> first_at_own_position summary_text ?ls i"
    with i show "?f i = amended_line_flags U summary_text ?ls i"
      by (rule code_line_flags_amended)
  qed
  from whole each have "extract_red_flags U summary_text = concat (map ?f [0..<length ?ls])
     \<and> (\<forall>i<length ?ls.
          (py_in critical_marker (?ls ! i) \<longrightarrow> ?f i = [critical_flag U (?ls ! i)])
          \<and> (\<not> py_in critical_marker (?ls ! i) \<and> \<not> py_in abnormal_marker (?ls ! i) \<longrightarrow> ?f i = [])
          \<and> (\<not> py_in critical_marker (?ls ! i) \<and> py_in abnormal_marker (?ls ! i) \<longrightarrow>
             (\<exists>k\<le>line_offset ?ls i. first_occurrence summary_text (?ls ! i) k)
             \<and> (\<forall>k. first_occurrence summary_text (?ls ! i) k \<longrightarrow>
                  ?f i = (if py_in (py ''RED FLAG'') (preceding_window summary_text k)
                          then [abnormal_flag U (?ls ! i)] else [])))
          \<and> ((py_in abnormal_marker (?ls ! i) \<and> \<not> py_in critical_marker (?ls ! i)
              \<longrightarrow> first_at_own_position summary_text ?ls i) \<longrightarrow>
             ?f i = amended_line_flags U summary_text ?ls i))"
    by (intro conjI allI impI) blast+
  then show ?thesis by (rule exI[of _ ?f])
qed

text \<open>
  The witness: an abnormal line right under the heading \<^verbatim>\<open>RED FLAG\<close> is flagged; and in a
  summary whose abnormal line under the heading repeats the first line, only the critical
  line is flagged.
\<close>

theorem red_flags_by_line_witness:
  "extract_red_flags example_unicode abnormal_example
   = [\<lparr>category = py ''abnormal'', finding = py ''BP high'', severity = py ''medium''\<rparr>]
   \<and> py_in (py ''RED FLAG'')
       (preceding_window repeated_example (line_offset (py_split 10 repeated_example) 3))
   \<and> extract_red_flags example_unicode repeated_example
     = [\<lparr>category = py ''critical'', finding = py ''Chest pain'', severity = py ''critical''\<rparr>]"
proof (intro conjI)
  let ?a = "abnormal_marker @ py '' BP high''"
  let ?ls = "[py ''RED FLAG'', ?a]"
  from red_flags_by_line[of example_unicode abnormal_example]
  obtain f where whole: "extract_red_flags example_unicode abnormal_example
        = concat (map f [0..<length ?ls])"
    and each: "\<And>i. i < length ?ls \<Longrightarrow>
          (py_in critical_marker (?ls ! i) \<longrightarrow> f i = [critical_flag example_unicode (?ls ! i)])
          \<and> (\<not> py_in critical_marker (?ls ! i) \<and> \<not> py_in abnormal_marker (?ls ! i) \<longrightarrow> f i = [])
          \<and> (\<not> py_in critical_marker (?ls ! i) \<and> py_in abnormal_marker (?ls ! i) \<longrightarrow>
             (\<exists>k\<le>line_offset ?ls i. first_occurrence abnormal_example (?ls ! i) k)
             \<and> (\<forall>k. first_occurrence abnormal_example (?ls ! i) k \<longrightarrow>
                  f i = (if py_in (py ''RED FLAG'') (preceding_window abnormal_example k)
                          then [abnormal_flag example_unicode (?ls ! i)] else [])))
          \<and> ((py_in abnormal_marker (?ls ! i) \<and> \<not> py_in critical_marker (?ls ! i)
              \<longrightarrow> first_at_own_position abnormal_example ?ls i) \<longrightarrow>
             f i = amended_line_flags example_unicode abnormal_example ?ls i)"
    unfolding abnormal_example_lines by (elim exE conjE) blast
  have idx: "[0..<length ?ls] = [0, 1]" by (simp add: upt_rec)
  have "0 < length ?ls" by simp
  from each[OF this] example_markers(4,5) have f0: "f 0 = []" by simp
  have "1 < length ?ls" by simp
  from each[OF this] abnormal_example_own
  have "f 1 = amended_line_flags example_unicode abnormal_example ?ls 1" by blast
  then have f1: "f 1 = [\<lparr>category = py ''abnormal'', finding = py ''BP high'',
                         severity = py ''medium''\<rparr>]"
    by (simp only: abnormal_example_flags)
  show "extract_red_flags example_unicode abnormal_example
   = [\<lparr>category = py ''abnormal'', finding = py ''BP high'', severity = py ''medium''\<rparr>]"
    unfolding whole idx by (simp only: list.map concat.simps f0 f1 append_Nil append_Nil2)
next
  show "py_in (py ''RED FLAG'')
       (preceding_window repeated_example (line_offset (py_split 10 repeated_example) 3))"
    by (simp only: repeated_example_window)
next
  let ?a = "abnormal_marker @ py '' BP high''"
  let ?c = "critical_marker @ py '' Chest pain''"
  let ?ls = "[?a, ?c, py ''RED FLAG'', ?a]"
  from red_flags_by_line[of example_unicode repeated_example]
  obtain f where whole: "extract_red_flags example_unicode repeated_example
        = concat (map f [0..<length ?ls])"
    and each: "\<And>i. i < length ?ls \<Longrightarrow>
          (py_in critical_marker (?ls ! i) \<longrightarrow> f i = [critical_flag example_unicode (?ls ! i)])
          \<and> (\<not> py_in critical_marker (?ls ! i) \<and> \<not> py_in abnormal_marker (?ls ! i) \<longrightarrow> f i = [])
          \<and> (\<not> py_in critical_marker (?ls ! i) \<and> py_in abnormal_marker (?ls ! i) \<longrightarrow>
             (\<exists>k\<le>line_offset ?ls i. first_occurrence repeated_example (?ls ! i) k)
             \<and> (\<forall>k. first_occurrence repeated_example (?ls ! i) k \<longrightarrow>
                  f i = (if py_in (py ''RED FLAG'') (preceding_window repeated_example k)
                          then [abnormal_flag example_unicode (?ls ! i)] else [])))
          \<and> ((py_in abnormal_marker (?ls ! i) \<and> \<not> py_in critical_marker (?ls ! i)
              \<longrightarrow> first_at_own_position repeated_example ?ls i) \<longrightarrow>
             f i = amended_line_flags example_unicode repeated_example ?ls i)"
    unfolding repeated_example_lines by (elim exE conjE) blast
  have idx: "[0..<length ?ls] = [0, 1, 2, 3]" by (simp add: upt_rec)
  have n: "?ls ! 0 = ?a" "?ls ! 1 = ?c" "?ls ! 2 = py ''RED FLAG''" "?ls ! 3 = ?a" by simp_all
  have l: "0 < length ?ls" "1 < length ?ls" "2 < length ?ls" "3 < length ?ls" by simp_all
  from each[OF l(1)] have "\<forall>k. first_occurrence repeated_example ?a k \<longrightarrow>
                  f 0 = (if py_in (py ''RED FLAG'') (preceding_window repeated_example k)
                          then [abnormal_flag example_unicode ?a] else [])"
    unfolding n using example_markers(1,2) by blast
  with repeated_example_first repeated_example_window(1) have f0: "f 0 = []" by simp
  from each[OF l(2)] have "f 1 = [critical_flag example_unicode ?c]"
    unfolding n using example_markers(3) by blast
  then have f1: "f 1 = [\<lparr>category = py ''critical'', finding = py ''Chest pain'',
                         severity = py ''critical''\<rparr>]"
    by (simp only: example_critical_flag)
  from each[OF l(3)] have f2: "f 2 = []"
    unfolding n using example_markers(4,5) by blast
  from each[OF l(4)] have "\<forall>k. first_occurrence repeated_example ?a k \<longrightarrow>
                  f 3 = (if py_in (py ''RED FLAG'') (preceding_window repeated_example k)
                          then [abnormal_flag example_unicode ?a] else [])"
    unfolding n using example_markers(1,2) by blast
  with repeated_example_first repeated_example_window(1) have f3: "f 3 = []" by simp
  show "extract_red_flags example_unicode repeated_example
     = [\<lparr>category = py ''critical'', finding = py ''Chest pain'', severity = py ''critical''\<rparr>]"
    unfolding whole idx by (simp only: list.map concat.simps f0 f1 f2 f3 append_Nil append_Nil2)
qed

text \<open>
  The claim as stated, with a case-insensitive comparison, fails under a heading in lower
  case: the second line contains the abnormal marker, the 200 code points before it
  contain \<^verbatim>\<open>red flag\<close>, which is \<^verbatim>\<open>RED FLAG\<close> up to case, and no red flag is returned.
\<close>

theorem lowercase_heading_not_flagged:
  "py_split 10 lowercase_example = [py ''red flag'', abnormal_marker @ py '' BP high'']
   \<and> py_in abnormal_marker (py_split 10 lowercase_example ! 1)
   \<and> preceding_window lowercase_example (line_offset (py_split 10 lowercase_example) 1)
     = py ''red flag'' @ [10]
   \<and> py_in (lower example_unicode (py ''RED FLAG''))
        (lower example_unicode
           (preceding_window lowercase_example (line_offset (py_split 10 lowercase_example) 1)))
   \<and> extract_red_flags example_unicode lowercase_example = []"
proof (intro conjI)
  show "py_split 10 lowercase_example = [py ''red flag'', abnormal_marker @ py '' BP high'']"
    by (rule lowercase_example_lines)
  show "py_in abnormal_marker (py_split 10 lowercase_example ! 1)"
    unfolding lowercase_example_lines
    by (simp add: py_def abnormal_marker_def startswith_def)
  have off: "line_offset [py ''red flag'', abnormal_marker @ py '' BP high''] 1 = 9"
    by (simp add: line_offset_def py_def abnormal_marker_def)
  show w: "preceding_window lowercase_example (line_offset (py_split 10 lowercase_example) 1)
     = py ''red flag'' @ [10]"
    unfolding lowercase_example_lines off
    by (simp add: preceding_window_def lowercase_example_def py_def)
  show "py_in (lower example_unicode (py ''RED FLAG''))
        (lower example_unicode
           (preceding_window lowercase_example (line_offset (py_split 10 lowercase_example) 1)))"
    unfolding w
    by (simp add: lower_def is_ascii_def ascii_lower_def py_def startswith_def)
  show "extract_red_flags example_unicode lowercase_example = []"
    by (simp add: extract_red_flags_def lowercase_example_def py_def abnormal_marker_def
          critical_marker_def startswith_def py_find_def py_slice_def slice_index_def)
qed

section \<open>The summaries module\<close>

text \<open>
  C1. The commit the claim describes is spelled out by the body of
  \<open>generate_summary_background\<close>, but the module that holds it does not compile: line 20
  is indented deeper than the docstring on line 19, which is no header. At the input of
  the example patient with one processed document, the call raises
  \<^verbatim>\<open>IndentationError\<close> at line 20 and commits nothing, so no row of the patient is the
  latest.
\<close>

theorem summaries_module_does_not_compile:
  "indentation_error [0] False summaries_py_lines = Some 20
   \<and> generate_summary_background example_unicode example_summarizer 7 3 processed_db
     = Inl (IndentationError 20)"
  by (simp add: generate_summary_background_def compile_summaries_fails summaries_indentation)

text \<open>
  C2. No call of \<open>generate_summary_background\<close> assigns a version: for every input the
  call raises \<^verbatim>\<open>IndentationError\<close> at line 20 and commits nothing. The row that the body
  would store has version 1 whatever the patient's rows are: the constructor call passes
  no version.
\<close>

theorem no_call_assigns_a_version:
  "generate_summary_background U env patient_id user_id db = Inl (IndentationError 20)
   \<and> version (new_summary patient_id user_id data) = 1"
  by (simp add: generate_summary_background_def compile_summaries_fails new_summary_def)

end
